theory Spec2Isabelle
  imports Main "HOL-Library.AList" "HOL-Library.Sublist"
begin

section \<open>Python strings\<close>

text \<open>
  A Python \<open>str\<close> is a \<open>string\<close>. \<open>str_contains sub s\<close> is the test \<open>sub in s\<close>;
  \<open>replace old new s\<close> is \<open>s.replace(old, new)\<close>: every occurrence of \<open>old\<close>, found
  from the left and without overlap, is replaced by \<open>new\<close> (with an empty \<open>old\<close>, Python
  puts \<open>new\<close> before every character and at the end).
\<close>

fun str_contains :: "string \<Rightarrow> string \<Rightarrow> bool" where
  "str_contains sub [] = (sub = [])"
| "str_contains sub (c # cs) = (prefix sub (c # cs) \<or> str_contains sub cs)"

fun replace :: "string \<Rightarrow> string \<Rightarrow> string \<Rightarrow> string" where
  "replace [] new s = new @ concat (map (\<lambda>c. c # new) s)"
| "replace (a # as) new [] = []"
| "replace (a # as) new (c # cs) =
     (if prefix (a # as) (c # cs)
      then new @ replace (a # as) new (drop (length (a # as)) (c # cs))
      else c # replace (a # as) new cs)"

section \<open>Dictionaries with insertion order\<close>

text \<open>
  \<open>Dict[str, str]\<close> keeps its keys in insertion order, and the signature is built in that
  order. A dictionary is an association list with distinct keys: \<open>d[k] = v\<close> is
  \<open>AList.update k v d\<close> (a new key goes to the end, an old key keeps its place),
  \<open>k in d\<close> and \<open>d[k]\<close> read \<open>map_of d k\<close>, \<open>d.items()\<close> is the list itself and
  \<open>len(d)\<close> its length.
\<close>

type_synonym str_dict = "(string \<times> string) list"

section \<open>The signature of the inferred types\<close>

text \<open>The first loop of \<open>get_types_sig\<close>, over \<open>inferred_types.items()\<close>.\<close>

fun sig_types_loop :: "str_dict \<Rightarrow> str_dict \<Rightarrow> string \<Rightarrow> string" where
  "sig_types_loop [] inferred_layouts signature = signature"
| "sig_types_loop ((name, i_type) # rest) inferred_layouts signature =
     (let signature = signature @ i_type;
          signature =
            (if str_contains ''View'' i_type \<and> map_of inferred_layouts name \<noteq> None
             then signature @ the (map_of inferred_layouts name)
             else signature)
      in sig_types_loop rest inferred_layouts signature)"

text \<open>The second loop, over \<open>inferred_layouts.items()\<close>.\<close>

fun sig_layouts_loop :: "str_dict \<Rightarrow> string \<Rightarrow> string" where
  "sig_layouts_loop [] signature = signature"
| "sig_layouts_loop ((name, l_type) # rest) signature =
     sig_layouts_loop rest (signature @ name @ l_type)"

text \<open>The eleven \<open>signature = signature.replace(...)\<close> lines under \<open># Compacting\<close>.\<close>

definition compacting :: "string \<Rightarrow> string" where
  "compacting signature =
     (let signature = replace ''View'' '''' signature;
          signature = replace ''Acc:'' '''' signature;
          signature = replace ''TeamMember'' ''T'' signature;
          signature = replace ''numpy:'' ''np'' signature;
          signature = replace ''LayoutRight'' ''R'' signature;
          signature = replace ''LayoutLeft'' ''L'' signature;
          signature = replace '':'' '''' signature;
          signature = replace ''double'' ''d'' signature;
          signature = replace ''int'' ''i'' signature;
          signature = replace ''bool'' ''b'' signature;
          signature = replace ''float'' ''f'' signature
      in signature)"

definition get_types_sig :: "str_dict \<Rightarrow> str_dict \<Rightarrow> string option" where
  "get_types_sig inferred_types inferred_layouts =
     (if length inferred_layouts = 0 \<and> length inferred_types = 0 then None
      else
        let signature = sig_types_loop inferred_types inferred_layouts '''';
            signature =
              (if signature = '''' then sig_layouts_loop inferred_layouts signature
               else signature)
        in Some (compacting signature))"

section \<open>Python values\<close>

text \<open>
  Modelled from the spec: the enumerations \<open>ExecutionSpace\<close> and \<open>Layout\<close> are declared in
  \<open>pykokkos.interface.execution_space\<close> and \<open>pykokkos.interface.layout\<close>, which are not
  among the sources. \<open>OpenMP\<close> and \<open>Debug\<close> are the members \<open>kokkos_manager\<close> names,
  \<open>LayoutRight\<close> and \<open>LayoutDefault\<close> the members \<open>infer_other_args\<close> names; the spec has
  two memory orders and a default that depends on the execution space.
\<close>

datatype execution_space = OpenMP | Debug | OtherSpace string

datatype layout = LayoutLeft | LayoutRight | LayoutDefault

text \<open>
  Modelled from the spec: the policy classes are declared in
  \<open>pykokkos.interface.execution_policy\<close>, which is not among the sources. Every policy has
  an execution space (\<open>policy.space\<close>); a flat range is built as
  \<open>RangePolicy(space, begin, end)\<close>; of a multi-dimensional range the code reads
  \<open>policy.begin\<close>, one entry per dimension. \<open>OtherPolicy\<close> is an \<open>ExecutionPolicy\<close> of any
  other class.
\<close>

datatype execution_policy =
    RangePolicy execution_space int int
  | TeamThreadRange execution_space
  | TeamPolicy execution_space
  | MDRangePolicy execution_space "int list"
  | OtherPolicy execution_space

text \<open>
  An \<open>inspect.Parameter\<close>: its name and its annotation, \<open>None\<close> for \<open>inspect._empty\<close>.
  The parameters of one function have distinct names.
\<close>

record param =
  pname :: string
  annotation :: "string option"

text \<open>
  The Python objects a dispatch call can be given, told apart as far as the code looks at
  them (\<open>isinstance\<close>, \<open>type(v).__name__\<close>, \<open>type(v).__module__\<close> and the attributes it
  reads):
  \<^item> \<open>VInt\<close>, \<open>VBool\<close>, \<open>VFloat m e\<close> (the finite float \<open>m * 2^e\<close>; the code never
    computes with it) and \<open>VStr\<close> are the built-in types; \<open>bool\<close> derives from \<open>int\<close>;
    \<open>VNone\<close> is \<open>None\<close>;
  \<^item> \<open>VNumpy tn\<close> is an instance of the type named \<open>tn\<close> of module \<open>numpy\<close>
    (\<open>numpy.float64\<close> derives from \<open>float\<close> and \<open>numpy.str_\<close> from \<open>str\<close>; numpy has no
    type named \<open>int\<close>);
  \<^item> \<open>VView lay shp dt\<close> is a \<open>View\<close> with its \<open>layout\<close>, \<open>shape\<close> and \<open>dtype\<close>
    attributes; \<open>VSubview\<close> is a \<open>ViewType\<close> that is not a \<open>View\<close>;
  \<^item> \<open>VDataType n\<close> is the member named \<open>n\<close> of the enumeration \<open>DataType\<close>;
    \<open>VClass n d\<close> is a class object named \<open>n\<close>, where \<open>d\<close> says whether it derives from
    \<open>DataTypeClass\<close>;
  \<^item> \<open>VFunction ps\<close> is a function with the parameters \<open>ps\<close>;
  \<^item> \<open>VObject m n\<close> is an instance of any other class \<open>n\<close> of module \<open>m\<close>, deriving from
    none of the classes above.
\<close>

datatype pyval =
    VNone
  | VStr string
  | VInt int
  | VBool bool
  | VFloat int int
  | VNumpy string
  | VView layout "nat list" pyval
  | VSubview
  | VPolicy execution_policy
  | VSpace execution_space
  | VDataType string
  | VClass string bool
  | VFunction "param list"
  | VObject string string

datatype py_error =
    TypeError_wrong_arguments "pyval list"
  | ValueError_incorrect_number_of_arguments nat
  | ValueError_policy_not_supported
  | AssertionError_unannotated_arguments_mismatch int int
  | TypeError_numpy_type_unsupported string
  | TypeError_cannot_infer_datatype_for_view string
  | TypeError_not_a_callable
  | TypeError_issubclass_arg_1_must_be_a_class
  | AttributeError string
  | IndexError

fun isinstance_str :: "pyval \<Rightarrow> bool" where
  "isinstance_str (VStr s) = True"
| "isinstance_str (VNumpy tn) = (tn = ''str_'')"
| "isinstance_str v = False"

fun isinstance_int :: "pyval \<Rightarrow> bool" where
  "isinstance_int (VInt n) = True"
| "isinstance_int (VBool b) = True"
| "isinstance_int v = False"

fun isinstance_float :: "pyval \<Rightarrow> bool" where
  "isinstance_float (VFloat m e) = True"
| "isinstance_float (VNumpy tn) = (tn = ''float64'')"
| "isinstance_float v = False"

fun isinstance_ViewType :: "pyval \<Rightarrow> bool" where
  "isinstance_ViewType (VView lay shp dt) = True"
| "isinstance_ViewType VSubview = True"
| "isinstance_ViewType v = False"

text \<open>\<open>type(v).__name__\<close> and \<open>type(v).__module__\<close>.\<close>

fun policy_class_name :: "execution_policy \<Rightarrow> string" where
  "policy_class_name (RangePolicy sp b e) = ''RangePolicy''"
| "policy_class_name (TeamThreadRange sp) = ''TeamThreadRange''"
| "policy_class_name (TeamPolicy sp) = ''TeamPolicy''"
| "policy_class_name (MDRangePolicy sp b) = ''MDRangePolicy''"
| "policy_class_name (OtherPolicy sp) = ''ExecutionPolicy''"

fun type_name :: "pyval \<Rightarrow> string" where
  "type_name VNone = ''NoneType''"
| "type_name (VStr s) = ''str''"
| "type_name (VInt n) = ''int''"
| "type_name (VBool b) = ''bool''"
| "type_name (VFloat m e) = ''float''"
| "type_name (VNumpy tn) = tn"
| "type_name (VView lay shp dt) = ''View''"
| "type_name VSubview = ''Subview''"
| "type_name (VPolicy p) = policy_class_name p"
| "type_name (VSpace sp) = ''ExecutionSpace''"
| "type_name (VDataType n) = ''DataType''"
| "type_name (VClass n d) = ''type''"
| "type_name (VFunction ps) = ''function''"
| "type_name (VObject m n) = n"

fun type_module :: "pyval \<Rightarrow> string" where
  "type_module (VNumpy tn) = ''numpy''"
| "type_module (VView lay shp dt) = ''pykokkos.interface.views''"
| "type_module VSubview = ''pykokkos.interface.views''"
| "type_module (VPolicy p) = ''pykokkos.interface.execution_policy''"
| "type_module (VSpace sp) = ''pykokkos.interface.execution_space''"
| "type_module (VDataType n) = ''pykokkos.interface.data_types''"
| "type_module (VObject m n) = m"
| "type_module v = ''builtins''"

text \<open>
  \<open>int.bit_length()\<close>: the number of bits of the absolute value, 0 for 0. Among the
  values above only the built-in integers have the method.
\<close>

fun bit_length_nat :: "nat \<Rightarrow> nat" where
  "bit_length_nat n = (if n = 0 then 0 else Suc (bit_length_nat (n div 2)))"

declare bit_length_nat.simps [simp del]

definition bit_length :: "int \<Rightarrow> nat" where
  "bit_length x = bit_length_nat (nat \<bar>x\<bar>)"

fun call_bit_length :: "pyval \<Rightarrow> py_error + nat" where
  "call_bit_length (VInt n) = Inr (bit_length n)"
| "call_bit_length (VBool b) = Inr (if b then 1 else 0)"
| "call_bit_length v = Inl (AttributeError ''bit_length'')"

text \<open>\<open>str(n)\<close> of a length: its decimal digits.\<close>

fun str_nat :: "nat \<Rightarrow> string" where
  "str_nat n =
     (if n < 10 then [''0123456789'' ! n]
      else str_nat (n div 10) @ [''0123456789'' ! (n mod 10)])"

declare str_nat.simps [simp del]

section \<open>The kokkos manager\<close>

text \<open>
  The entries of \<open>CONSTANTS\<close> that the two setters and getters touch, the environment
  variable \<open>DEBUG\<close> as \<open>os.environ.get\<close> returns it, and the lines printed so far.
\<close>

record km_state =
  EXECUTION_SPACE :: execution_space
  REAL_DTYPE :: pyval
  environ_DEBUG :: "string option"
  printed :: "string list"

definition get_default_space :: "km_state \<Rightarrow> execution_space" where
  "get_default_space st =
     (if environ_DEBUG st \<noteq> None \<and> environ_DEBUG st \<noteq> Some [] then Debug
      else EXECUTION_SPACE st)"

definition set_default_space :: "pyval \<Rightarrow> km_state \<Rightarrow> py_error + km_state" where
  "set_default_space space st =
     (case space of
        VSpace sp \<Rightarrow> Inr (st\<lparr>EXECUTION_SPACE := sp\<rparr>)
      | _ \<Rightarrow> Inr (st\<lparr>printed := printed st @ [''ERROR: space is not an ExecutionSpace'']\<rparr>))"

definition get_default_precision :: "km_state \<Rightarrow> pyval" where
  "get_default_precision st = REAL_DTYPE st"

text \<open>
  \<open>issubclass(precision, DataTypeClass)\<close> raises \<open>TypeError\<close> when \<open>precision\<close> is not
  a class. Python asks the first argument of \<open>issubclass\<close> for its \<open>__bases__\<close>: of the
  values of \<open>pyval\<close> only a class has them. An object of another kind that has them too
  (a generic alias such as \<open>list[int]\<close>) is not among the values modelled, so nothing
  below speaks of it.
\<close>

definition set_default_precision :: "pyval \<Rightarrow> km_state \<Rightarrow> py_error + km_state" where
  "set_default_precision precision st =
     (case precision of
        VClass n d \<Rightarrow>
          (if \<not> d
           then Inr (st\<lparr>printed := printed st @ [''ERROR: precision is not a DataType'']\<rparr>)
           else Inr (st\<lparr>REAL_DTYPE := precision\<rparr>))
      | _ \<Rightarrow> Inl TypeError_issubclass_arg_1_must_be_a_class)"

section \<open>The arguments of a dispatch call\<close>

record HandledArgs =
  name :: "pyval option"
  policy :: pyval
  workunit :: pyval
  view :: "pyval option"
  initial_value :: pyval

text \<open>
  Lines 97 and 98 of \<open>handle_args\<close>: an \<open>int\<close> policy (a \<open>bool\<close> is one, with the value
  0 or 1) becomes \<open>RangePolicy(km.get_default_space(), 0, policy)\<close>.
\<close>

definition int_policy :: "km_state \<Rightarrow> pyval \<Rightarrow> pyval" where
  "int_policy st p =
     (case p of
        VInt n \<Rightarrow> VPolicy (RangePolicy (get_default_space st) 0 n)
      | VBool b \<Rightarrow> VPolicy (RangePolicy (get_default_space st) 0 (if b then 1 else 0))
      | _ \<Rightarrow> p)"

definition handle_args :: "km_state \<Rightarrow> bool \<Rightarrow> pyval list \<Rightarrow> py_error + HandledArgs" where
  "handle_args st is_for unpacked =
     (let bound =
        (if length unpacked = 2 then
           Inr (None, unpacked ! 0, unpacked ! 1, None, VInt 0)
         else if length unpacked = 3 then
           (if isinstance_str (unpacked ! 0) then
              Inr (Some (unpacked ! 0), unpacked ! 1, unpacked ! 2, None, VInt 0)
            else if is_for \<and> isinstance_ViewType (unpacked ! 2) then
              Inr (None, unpacked ! 0, unpacked ! 1, Some (unpacked ! 2), VInt 0)
            else if isinstance_int (unpacked ! 2) \<or> isinstance_float (unpacked ! 2) then
              Inr (None, unpacked ! 0, unpacked ! 1, None, unpacked ! 2)
            else Inl (TypeError_wrong_arguments unpacked))
         else if length unpacked = 4 then
           (if isinstance_str (unpacked ! 0) then
              (if is_for \<and> isinstance_ViewType (unpacked ! 3) then
                 Inr (Some (unpacked ! 0), unpacked ! 1, unpacked ! 2, Some (unpacked ! 3), VInt 0)
               else if isinstance_int (unpacked ! 3) \<or> isinstance_float (unpacked ! 3) then
                 Inr (Some (unpacked ! 0), unpacked ! 1, unpacked ! 2, None, unpacked ! 3)
               else Inl (TypeError_wrong_arguments unpacked))
            else Inl (TypeError_wrong_arguments unpacked))
         else Inl (ValueError_incorrect_number_of_arguments (length unpacked)))
      in case bound of
           Inl e \<Rightarrow> Inl e
         | Inr (label, pol, wu, vw, init) \<Rightarrow>
             Inr \<lparr>name = label, policy = int_policy st pol, workunit = wu,
                  view = vw, initial_value = init\<rparr>)"

section \<open>Inference of the parameter types\<close>

record UpdatedTypes =
  ut_workunit :: pyval
  inferred_types :: str_dict
  param_list :: "param list"
  layout_change :: str_dict
  types_signature :: "string option"

text \<open>
  What the inference reads from modules that are not among the sources: \<open>dir(DataType)\<close>,
  the attribute names of the enumeration of scalar types, from which
  \<open>SUPPORTED_NP_DTYPES\<close> is computed, and \<open>get_default_layout\<close> of
  \<open>pykokkos.interface.layout\<close>. Both are parameters of the model.
\<close>

record externals =
  dir_DataType :: "string list"
  get_default_layout :: "execution_space \<Rightarrow> layout"

definition SUPPORTED_NP_DTYPES :: "externals \<Rightarrow> string list" where
  "SUPPORTED_NP_DTYPES ext =
     filter (\<lambda>attr. \<not> prefix ''__'' attr) (dir_DataType ext) @ [''float64'', ''float32'']"

subsection \<open>The policy parameters\<close>

fun isinstance_RangePolicy :: "pyval \<Rightarrow> bool" where
  "isinstance_RangePolicy (VPolicy (RangePolicy sp b e)) = True"
| "isinstance_RangePolicy v = False"

fun isinstance_TeamThreadRange :: "pyval \<Rightarrow> bool" where
  "isinstance_TeamThreadRange (VPolicy (TeamThreadRange sp)) = True"
| "isinstance_TeamThreadRange v = False"

fun isinstance_TeamPolicy :: "pyval \<Rightarrow> bool" where
  "isinstance_TeamPolicy (VPolicy (TeamPolicy sp)) = True"
| "isinstance_TeamPolicy v = False"

fun isinstance_MDRangePolicy :: "pyval \<Rightarrow> bool" where
  "isinstance_MDRangePolicy (VPolicy (MDRangePolicy sp b)) = True"
| "isinstance_MDRangePolicy v = False"

text \<open>\<open>len(policy.begin)\<close>, read only of an \<open>MDRangePolicy\<close>.\<close>

fun len_begin :: "pyval \<Rightarrow> nat" where
  "len_begin (VPolicy (MDRangePolicy sp b)) = length b"
| "len_begin v = 0"

text \<open>\<open>updated_types.inferred_types[k] = t\<close> and \<open>updated_types.layout_change[k] = l\<close>.\<close>

definition set_type :: "string \<Rightarrow> string \<Rightarrow> UpdatedTypes \<Rightarrow> UpdatedTypes" where
  "set_type k t updated_types =
     updated_types\<lparr>inferred_types := AList.update k t (inferred_types updated_types)\<rparr>"

definition set_layout :: "string \<Rightarrow> string \<Rightarrow> UpdatedTypes \<Rightarrow> UpdatedTypes" where
  "set_layout k l updated_types =
     updated_types\<lparr>layout_change := AList.update k l (layout_change updated_types)\<rparr>"

text \<open>
  The body of the loop of \<open>infer_policy_args\<close> for the index \<open>i\<close> and its parameter.
  The comparisons with \<open>policy_params - 1\<close> and \<open>policy_params - 2\<close> are on Python
  integers.
\<close>

definition policy_arg_step ::
  "nat \<Rightarrow> param \<Rightarrow> nat \<Rightarrow> pyval \<Rightarrow> string \<Rightarrow> UpdatedTypes \<Rightarrow> py_error + UpdatedTypes" where
  "policy_arg_step i p policy_params pol parallel_type updated_types =
     (if annotation p \<noteq> None then Inr updated_types
      else
        case
          (if isinstance_RangePolicy pol \<or> isinstance_TeamThreadRange pol then
             Inr (if i = 0 then set_type (pname p) ''int'' updated_types else updated_types)
           else if isinstance_TeamPolicy pol then
             Inr (if i = 0 then set_type (pname p) ''TeamMember'' updated_types
                  else updated_types)
           else if isinstance_MDRangePolicy pol then
             (let total_dims = len_begin pol
              in Inr (if i < total_dims then set_type (pname p) ''int'' updated_types
                      else updated_types))
           else Inl ValueError_policy_not_supported)
        of
          Inl e \<Rightarrow> Inl e
        | Inr updated_types \<Rightarrow>
            let updated_types =
                  (if int i = int policy_params - 1 \<and> parallel_type = ''parallel_reduce''
                      \<or> int i = int policy_params - 2 \<and> parallel_type = ''parallel_scan''
                   then set_type (pname p) ''Acc:double'' updated_types
                   else updated_types);
                updated_types =
                  (if int i = int policy_params - 1 \<and> parallel_type = ''parallel_scan''
                   then set_type (pname p) ''bool'' updated_types
                   else updated_types)
            in Inr updated_types)"

text \<open>
  The loop over \<open>range(policy_params)\<close>; \<open>param_list[i]\<close> raises \<open>IndexError\<close> past the
  end of the list.
\<close>

fun infer_policy_loop ::
  "nat list \<Rightarrow> param list \<Rightarrow> nat \<Rightarrow> pyval \<Rightarrow> string \<Rightarrow> UpdatedTypes
     \<Rightarrow> py_error + UpdatedTypes" where
  "infer_policy_loop [] ps policy_params pol parallel_type updated_types = Inr updated_types"
| "infer_policy_loop (i # rest) ps policy_params pol parallel_type updated_types =
     (if length ps \<le> i then Inl IndexError
      else
        case policy_arg_step i (ps ! i) policy_params pol parallel_type updated_types of
          Inl e \<Rightarrow> Inl e
        | Inr updated_types \<Rightarrow>
            infer_policy_loop rest ps policy_params pol parallel_type updated_types)"

definition infer_policy_args ::
  "param list \<Rightarrow> nat \<Rightarrow> pyval \<Rightarrow> string \<Rightarrow> UpdatedTypes \<Rightarrow> py_error + UpdatedTypes" where
  "infer_policy_args ps policy_params pol parallel_type updated_types =
     infer_policy_loop [0..<policy_params] ps policy_params pol parallel_type updated_types"

subsection \<open>The value parameters\<close>

text \<open>
  \<open>get_pk_datatype\<close>: the name of a \<open>DataType\<close> member or of a class deriving from
  \<open>DataTypeClass\<close>, with the two aliases renamed; \<open>None\<close> for anything else.
\<close>

definition get_pk_datatype :: "pyval \<Rightarrow> string option" where
  "get_pk_datatype view_dtype =
     (let dtype =
            (case view_dtype of
               VDataType n \<Rightarrow> Some n
             | VClass n d \<Rightarrow> (if d then Some n else None)
             | _ \<Rightarrow> None);
          dtype = (if dtype = Some ''float64'' then Some ''double'' else dtype);
          dtype = (if dtype = Some ''float32'' then Some ''float'' else dtype)
      in dtype)"

text \<open>
  Lines 232 to 234 of \<open>infer_other_args\<close>: the layout recorded for a \<open>View\<close>
  (\<open>isinstance(value, View)\<close> holds of \<open>VView\<close> only), \<open>None\<close> for any other value.
\<close>

definition view_layout :: "externals \<Rightarrow> execution_space \<Rightarrow> pyval \<Rightarrow> string option" where
  "view_layout ext space v =
     (case v of
        VView lay shp dt \<Rightarrow>
          (let inferred_layout = (if lay \<noteq> LayoutDefault then lay else get_default_layout ext space)
           in Some (if inferred_layout = LayoutRight then ''LayoutRight'' else ''LayoutLeft''))
      | _ \<Rightarrow> None)"

text \<open>
  Lines 239 to 263: the type of a parameter without annotation from its value. A false
  \<open>view_dtype\<close> (\<open>None\<close> or the empty string) raises the error that names the parameter.
\<close>

definition value_type :: "externals \<Rightarrow> param \<Rightarrow> pyval \<Rightarrow> py_error + string" where
  "value_type ext p v =
     (let param_type = type_name v in
      case
        (if param_type = ''int'' then
           (case call_bit_length v of
              Inl e \<Rightarrow> Inl e
            | Inr n \<Rightarrow> Inr (if n > 31 then ''numpy:int64'' else param_type))
         else Inr param_type)
      of
        Inl e \<Rightarrow> Inl e
      | Inr param_type \<Rightarrow>
          let pckg_name = type_module v in
          case
            (if pckg_name = ''numpy'' then
               (if param_type \<notin> set (SUPPORTED_NP_DTYPES ext)
                then Inl (TypeError_numpy_type_unsupported param_type)
                else
                  let param_type = (if param_type = ''float64'' then ''double'' else param_type);
                      param_type = (if param_type = ''float32'' then ''float'' else param_type)
                  in Inr (pckg_name @ '':'' @ param_type))
             else Inr param_type)
          of
            Inl e \<Rightarrow> Inl e
          | Inr param_type \<Rightarrow>
              (case v of
                 VView lay shp dt \<Rightarrow>
                   (let view_dtype = get_pk_datatype dt
                    in if view_dtype = None \<or> view_dtype = Some []
                       then Inl (TypeError_cannot_infer_datatype_for_view (pname p))
                       else Inr (''View'' @ str_nat (length shp) @ ''D:'' @ the view_dtype))
               | _ \<Rightarrow> Inr param_type))"

text \<open>The body of the loop of \<open>infer_other_args\<close> for one parameter and its value.\<close>

definition other_arg_step ::
  "externals \<Rightarrow> execution_space \<Rightarrow> param \<Rightarrow> pyval \<Rightarrow> UpdatedTypes \<Rightarrow> py_error + UpdatedTypes" where
  "other_arg_step ext space p v updated_types =
     (let updated_types =
            (case view_layout ext space v of
               Some l \<Rightarrow> set_layout (pname p) l updated_types
             | None \<Rightarrow> updated_types)
      in if annotation p \<noteq> None then Inr updated_types
         else
           case value_type ext p v of
             Inl e \<Rightarrow> Inl e
           | Inr param_type \<Rightarrow> Inr (set_type (pname p) param_type updated_types))"

text \<open>
  The loop over \<open>range(policy_params, len(param_list))\<close>; the value of parameter \<open>i\<close> is
  \<open>args_list[start_idx + i - policy_params]\<close>, an \<open>IndexError\<close> past the end of the list.
\<close>

fun infer_other_loop ::
  "externals \<Rightarrow> nat list \<Rightarrow> param list \<Rightarrow> nat \<Rightarrow> pyval list \<Rightarrow> nat \<Rightarrow> execution_space
     \<Rightarrow> UpdatedTypes \<Rightarrow> py_error + UpdatedTypes" where
  "infer_other_loop ext [] ps policy_params args_list start_idx space updated_types =
     Inr updated_types"
| "infer_other_loop ext (i # rest) ps policy_params args_list start_idx space updated_types =
     (if length ps \<le> i \<or> length args_list \<le> start_idx + i - policy_params
      then Inl IndexError
      else
        case other_arg_step ext space (ps ! i) (args_list ! (start_idx + i - policy_params))
               updated_types of
          Inl e \<Rightarrow> Inl e
        | Inr updated_types \<Rightarrow>
            infer_other_loop ext rest ps policy_params args_list start_idx space updated_types)"

definition infer_other_args ::
  "externals \<Rightarrow> param list \<Rightarrow> nat \<Rightarrow> pyval list \<Rightarrow> nat \<Rightarrow> execution_space \<Rightarrow> UpdatedTypes
     \<Rightarrow> py_error + UpdatedTypes" where
  "infer_other_args ext ps policy_params args_list start_idx space updated_types =
     infer_other_loop ext [policy_params..<length ps] ps policy_params args_list start_idx
       space updated_types"

subsection \<open>The whole inference\<close>

text \<open>
  \<open>inspect.signature\<close> of the workunit, and \<open>policy.space\<close>. The keyword arguments are a
  dictionary from parameter names to values; the values of the value parameters passed
  by keyword are appended to the arguments in the order of the parameters. A workunit is
  a function, \<open>VFunction\<close> with its parameters: the other objects of which
  \<open>inspect.signature\<close> returns a signature (a class, an object with \<open>__call__\<close>, a
  \<open>functools.partial\<close>) are not among the values modelled, and of every modelled value
  that is not a function \<open>inspect.signature\<close> raises its \<open>TypeError\<close>.
\<close>

fun signature_parameters :: "pyval \<Rightarrow> py_error + param list" where
  "signature_parameters (VFunction ps) = Inr ps"
| "signature_parameters v = Inl TypeError_not_a_callable"

fun policy_space :: "pyval \<Rightarrow> py_error + execution_space" where
  "policy_space (VPolicy (RangePolicy sp b e)) = Inr sp"
| "policy_space (VPolicy (TeamThreadRange sp)) = Inr sp"
| "policy_space (VPolicy (TeamPolicy sp)) = Inr sp"
| "policy_space (VPolicy (MDRangePolicy sp b)) = Inr sp"
| "policy_space (VPolicy (OtherPolicy sp)) = Inr sp"
| "policy_space v = Inl (AttributeError ''space'')"

fun keyword_values :: "param list \<Rightarrow> (string \<times> pyval) list \<Rightarrow> pyval list" where
  "keyword_values [] passed_kwargs = []"
| "keyword_values (p # ps) passed_kwargs =
     (case map_of passed_kwargs (pname p) of
        Some v \<Rightarrow> v # keyword_values ps passed_kwargs
      | None \<Rightarrow> keyword_values ps passed_kwargs)"

text \<open>
  Lines 117 to 124: the number of policy parameters. Lines 135 to 139: the arguments
  with the keyword values appended. Line 143: the index of the first value argument.
  The \<open>assert\<close> of line 145 compares Python integers and raises \<open>AssertionError\<close>
  with the two counts (Python checks it unless it runs with \<open>-O\<close>).
\<close>

definition policy_params_of :: "string \<Rightarrow> pyval \<Rightarrow> nat" where
  "policy_params_of parallel_type pol =
     (let policy_params = (if isinstance_MDRangePolicy pol then len_begin pol else 1);
          policy_params =
            (if parallel_type = ''parallel_reduce'' then policy_params + 1
             else policy_params);
          policy_params =
            (if parallel_type = ''parallel_scan'' then policy_params + 2
             else policy_params)
      in policy_params)"

definition args_list_of ::
  "param list \<Rightarrow> nat \<Rightarrow> pyval list \<Rightarrow> (string \<times> pyval) list \<Rightarrow> pyval list" where
  "args_list_of ps policy_params args passed_kwargs =
     (if length passed_kwargs \<noteq> 0
      then args @ keyword_values (drop policy_params ps) passed_kwargs
      else args)"

definition value_idx_of :: "HandledArgs \<Rightarrow> nat" where
  "value_idx_of handled_args = (if name handled_args \<noteq> None then 3 else 2)"

definition get_annotations ::
  "externals \<Rightarrow> string \<Rightarrow> HandledArgs \<Rightarrow> pyval list \<Rightarrow> (string \<times> pyval) list
     \<Rightarrow> py_error + UpdatedTypes option" where
  "get_annotations ext parallel_type handled_args args passed_kwargs =
     (case signature_parameters (workunit handled_args) of
        Inl e \<Rightarrow> Inl e
      | Inr ps \<Rightarrow>
          let updated_types =
                \<lparr>ut_workunit = workunit handled_args, inferred_types = [], param_list = ps,
                 layout_change = [], types_signature = None\<rparr>;
              policy_params = policy_params_of parallel_type (policy handled_args)
          in
            case infer_policy_args ps policy_params (policy handled_args) parallel_type
                   updated_types of
              Inl e \<Rightarrow> Inl e
            | Inr updated_types \<Rightarrow>
                if length ps = policy_params then
                  (if length (inferred_types updated_types) = 0 then Inr None
                   else Inr (Some updated_types))
                else
                  let args_list = args_list_of ps policy_params args passed_kwargs;
                      value_idx = value_idx_of handled_args
                  in
                    if int (length ps) - int policy_params
                         \<noteq> int (length args_list) - int value_idx
                    then Inl (AssertionError_unannotated_arguments_mismatch
                                (int (length ps) - int policy_params)
                                (int (length args_list) - int value_idx))
                    else
                      case policy_space (policy handled_args) of
                        Inl e \<Rightarrow> Inl e
                      | Inr space \<Rightarrow>
                          (case infer_other_args ext ps policy_params args_list value_idx space
                                  updated_types of
                             Inl e \<Rightarrow> Inl e
                           | Inr updated_types \<Rightarrow>
                               if length (inferred_types updated_types) = 0
                                  \<and> length (layout_change updated_types) = 0
                               then Inr None
                               else
                                 Inr (Some (updated_types
                                   \<lparr>types_signature :=
                                      get_types_sig (inferred_types updated_types)
                                        (layout_change updated_types)\<rparr>))))"

section \<open>The claims in the words of the specification\<close>

text \<open>
  The signature as the specification describes it: every entry of the type map, in
  insertion order, gives its descriptor, followed by the layout tag of the same name when
  the descriptor contains the array marker \<open>View\<close>; the text is then contracted by the
  eleven replacements, in this order.
\<close>

definition spec_entry :: "str_dict \<Rightarrow> string \<times> string \<Rightarrow> string" where
  "spec_entry layouts e =
     (case e of (k, i_type) \<Rightarrow>
        i_type @ (if str_contains ''View'' i_type
                  then (case map_of layouts k of Some l \<Rightarrow> l | None \<Rightarrow> [])
                  else []))"

definition spec_contractions :: "(string \<times> string) list" where
  "spec_contractions =
     [(''View'', []), (''Acc:'', []), (''TeamMember'', ''T''), (''numpy:'', ''np''),
      (''LayoutRight'', ''R''), (''LayoutLeft'', ''L''), ('':'', []), (''double'', ''d''),
      (''int'', ''i''), (''bool'', ''b''), (''float'', ''f'')]"

definition spec_signature :: "str_dict \<Rightarrow> str_dict \<Rightarrow> string" where
  "spec_signature types layouts =
     foldl (\<lambda>s (old, new). replace old new s)
       (concat (map (spec_entry layouts) types)) spec_contractions"

text \<open>
  The role of the policy parameter \<open>i\<close> as the specification lists them: the final-pass
  flag and the accumulator by position, then the index or team roles by policy kind;
  \<open>None\<close> when the parameter gets no role. A policy is supported when it is of one of
  the four kinds.
\<close>

definition spec_policy_role :: "pyval \<Rightarrow> string \<Rightarrow> nat \<Rightarrow> nat \<Rightarrow> string option" where
  "spec_policy_role pol parallel_type policy_params i =
     (if parallel_type = ''parallel_scan'' \<and> i + 1 = policy_params then Some ''bool''
      else if parallel_type = ''parallel_reduce'' \<and> i + 1 = policy_params
              \<or> parallel_type = ''parallel_scan'' \<and> i + 2 = policy_params
      then Some ''Acc:double''
      else if (isinstance_RangePolicy pol \<or> isinstance_TeamThreadRange pol) \<and> i = 0
      then Some ''int''
      else if isinstance_TeamPolicy pol \<and> i = 0 then Some ''TeamMember''
      else if isinstance_MDRangePolicy pol \<and> i < len_begin pol then Some ''int''
      else None)"

definition supported_policy :: "pyval \<Rightarrow> bool" where
  "supported_policy pol =
     (isinstance_RangePolicy pol \<or> isinstance_TeamThreadRange pol \<or> isinstance_TeamPolicy pol
      \<or> isinstance_MDRangePolicy pol)"

text \<open>
  The claims about the value parameters in the words of the specification: the two float
  aliases; the tag of a layout; the name of an element dtype that can be resolved (a
  member of \<open>DataType\<close> or a class deriving from \<open>DataTypeClass\<close>); and "no value
  parameter before parameter \<open>i\<close> raises", so that the error of parameter \<open>i\<close> is the
  one the call raises.
\<close>

definition spec_alias :: "string \<Rightarrow> string" where
  "spec_alias tn = (if tn = ''float64'' then ''double'' else if tn = ''float32'' then ''float'' else tn)"

fun spec_layout_tag :: "layout \<Rightarrow> string" where
  "spec_layout_tag LayoutLeft = ''LayoutLeft''"
| "spec_layout_tag LayoutRight = ''LayoutRight''"
| "spec_layout_tag LayoutDefault = ''LayoutDefault''"

fun spec_dtype_name :: "pyval \<Rightarrow> string option" where
  "spec_dtype_name (VDataType n) = Some n"
| "spec_dtype_name (VClass n d) = (if d then Some n else None)"
| "spec_dtype_name v = None"

definition no_earlier_error ::
  "externals \<Rightarrow> param list \<Rightarrow> nat \<Rightarrow> pyval list \<Rightarrow> nat \<Rightarrow> nat \<Rightarrow> bool" where
  "no_earlier_error ext ps policy_params args_list start_idx i =
     (\<forall>j\<in>set [policy_params..<i]. annotation (ps ! j) = None \<longrightarrow>
          \<not> isl (value_type ext (ps ! j) (args_list ! (start_idx + j - policy_params))))"


section \<open>The signature compactor\<close>

lemma sig_types_loop_concat:
  "sig_types_loop ts ls acc = acc @ concat (map (spec_entry ls) ts)"
  by (induction ts arbitrary: acc) (auto simp: spec_entry_def Let_def)

lemma compacting_foldl:
  "compacting s = foldl (\<lambda>s (old, new). replace old new s) s spec_contractions"
  by (simp add: compacting_def spec_contractions_def Let_def)

lemma spec_entry_nonempty: "snd e \<noteq> [] \<Longrightarrow> spec_entry ls e \<noteq> []"
  by (cases e) (simp add: spec_entry_def)

lemma concat_entries_nonempty:
  assumes "e \<in> set ts" "snd e \<noteq> []"
  shows "concat (map (spec_entry ls) ts) \<noteq> []"
proof -
  have "spec_entry ls e \<in> set (map (spec_entry ls) ts)" using assms(1) by simp
  moreover have "spec_entry ls e \<noteq> []" using assms(2) by (rule spec_entry_nonempty)
  ultimately show ?thesis by (metis concat_eq_Nil_conv)
qed

lemma get_types_sig_spec:
  assumes "e \<in> set ts" "snd e \<noteq> []"
  shows "get_types_sig ts ls = Some (spec_signature ts ls)"
proof -
  define body where "body = concat (map (spec_entry ls) ts)"
  have ne: "body \<noteq> []"
    unfolding body_def using assms by (rule concat_entries_nonempty)
  have loop: "sig_types_loop ts ls [] = body"
    by (simp add: sig_types_loop_concat body_def)
  have "ts \<noteq> []" using assms(1) by auto
  then have "get_types_sig ts ls = Some (compacting body)"
    using ne by (simp add: get_types_sig_def loop Let_def)
  then show ?thesis
    by (simp add: compacting_foldl spec_signature_def body_def)
qed

lemma view2d_sig:
  assumes "map_of ls n = Some l" "l = ''LayoutRight'' \<or> l = ''LayoutLeft''"
  shows "get_types_sig [(n, ''View2D:double'')] ls =
           Some (if l = ''LayoutRight'' then ''2DdR'' else ''2DdL'')"
  using assms by (auto simp add: get_types_sig_def compacting_def)

text \<open>
  The signature where the code builds it from the type map. Given a type map in which
  some descriptor is not the empty string (every descriptor of the grammar is one),
  \<open>get_types_sig\<close> returns the
  concatenation, in insertion order, of every descriptor, each followed by the layout tag
  of its name when the descriptor contains \<open>View\<close> and the name has a layout entry,
  contracted by the replacements \<open>View\<close> removed, \<open>Acc:\<close> removed, \<open>TeamMember\<close> to \<open>T\<close>,
  \<open>numpy:\<close> to \<open>np\<close>, \<open>LayoutRight\<close> to \<open>R\<close>, \<open>LayoutLeft\<close> to \<open>L\<close>, \<open>:\<close> removed,
  \<open>double\<close> to \<open>d\<close>, \<open>int\<close> to \<open>i\<close>, \<open>bool\<close> to \<open>b\<close>, \<open>float\<close> to \<open>f\<close>, in this order.
  For the single entry \<open>View2D:double\<close> with a layout entry \<open>LayoutRight\<close> or \<open>LayoutLeft\<close>
  the result contains none of \<open>View\<close>, \<open>Acc:\<close> and \<open>Layout\<close>.
\<close>

theorem signature_compaction:
  "(types \<noteq> [] \<and> (\<exists>e\<in>set types. snd e \<noteq> []) \<longrightarrow>
      get_types_sig types layouts = Some (spec_signature types layouts))
   \<and> (map_of ls n = Some l \<and> (l = ''LayoutRight'' \<or> l = ''LayoutLeft'') \<longrightarrow>
        (\<exists>s. get_types_sig [(n, ''View2D:double'')] ls = Some s
           \<and> \<not> str_contains ''View'' s \<and> \<not> str_contains ''Acc:'' s
           \<and> \<not> str_contains ''Layout'' s))"
proof (intro conjI impI)
  assume "types \<noteq> [] \<and> (\<exists>e\<in>set types. snd e \<noteq> [])"
  then obtain e where "e \<in> set types" "snd e \<noteq> []" by blast
  then show "get_types_sig types layouts = Some (spec_signature types layouts)"
    by (rule get_types_sig_spec)
next
  assume a: "map_of ls n = Some l \<and> (l = ''LayoutRight'' \<or> l = ''LayoutLeft'')"
  then have "get_types_sig [(n, ''View2D:double'')] ls =
               Some (if l = ''LayoutRight'' then ''2DdR'' else ''2DdL'')"
    by (intro view2d_sig) auto
  then show "\<exists>s. get_types_sig [(n, ''View2D:double'')] ls = Some s
           \<and> \<not> str_contains ''View'' s \<and> \<not> str_contains ''Acc:'' s
           \<and> \<not> str_contains ''Layout'' s"
    by (cases "l = ''LayoutRight''") simp_all
qed

theorem signature_compaction_witness:
  "get_types_sig
     [(''i'', ''int''), (''acc'', ''Acc:double''), (''v'', ''View2D:double'')]
     [(''v'', ''LayoutRight'')] = Some ''id2DdR''
   \<and> (\<exists>s. get_types_sig [(''v'', ''View2D:double'')] [(''v'', ''LayoutRight'')] = Some s
           \<and> \<not> str_contains ''View'' s \<and> \<not> str_contains ''Acc:'' s
           \<and> \<not> str_contains ''Layout'' s)"
  using signature_compaction
          [of "[(''i'', ''int''), (''acc'', ''Acc:double''), (''v'', ''View2D:double'')]"
              "[(''v'', ''LayoutRight'')]" "[(''v'', ''LayoutRight'')]" "''v''"
              "''LayoutRight''"]
  by (simp add: spec_signature_def spec_entry_def spec_contractions_def)

text \<open>
  C1. The signature of a type map that is not empty is built from the type map alone:
  the comment of line 305 keeps the names and layouts of the layout map for the case
  \<^emph>\<open>if there were no inferred types but only layouts\<close>. Line 306 tests the concatenation
  instead of the type map. For the type map that gives \<open>x\<close> the empty descriptor, which
  is not an empty map, and the layout map \<open>{w: LayoutLeft}\<close> the concatenation of the
  descriptors is empty, and \<open>get_types_sig\<close> returns \<open>wL\<close>, the name and the layout tag
  of an entry of the layout map, where the contracted concatenation of the descriptors
  is the empty string.
\<close>

theorem signature_of_empty_descriptors:
  "[(''x'', [])] \<noteq> ([] :: str_dict)
   \<and> get_types_sig [(''x'', [])] [(''w'', ''LayoutLeft'')] = Some ''wL''
   \<and> spec_signature [(''x'', [])] [(''w'', ''LayoutLeft'')] = []"
  by (simp add: get_types_sig_def compacting_def spec_signature_def spec_entry_def
        spec_contractions_def)

section \<open>The policy parameters\<close>

lemma map_of_set_type:
  "map_of (inferred_types (set_type k t ut)) = (map_of (inferred_types ut))(k \<mapsto> t)"
  by (simp add: set_type_def update_conv')

lemma layout_set_type [simp]: "layout_change (set_type k t ut) = layout_change ut"
  by (simp add: set_type_def)

lemma policy_kinds_exclusive:
  "\<not> (isinstance_TeamPolicy pol \<and> (isinstance_RangePolicy pol \<or> isinstance_TeamThreadRange pol))"
  "\<not> (isinstance_MDRangePolicy pol \<and> (isinstance_RangePolicy pol \<or> isinstance_TeamThreadRange pol \<or> isinstance_TeamPolicy pol))"
  by (cases pol rule: isinstance_RangePolicy.cases; simp)+


lemma policy_arg_step_unsupported:
  "annotation p = None \<Longrightarrow> \<not> supported_policy pol \<Longrightarrow>
   policy_arg_step i p pp pol pt ut = Inl ValueError_policy_not_supported"
  by (simp add: policy_arg_step_def supported_policy_def)

lemma set_type_twice [simp]: "set_type k t (set_type k t' ut) = set_type k t ut"
  by (simp add: set_type_def)

lemma int_pos_eqs:
  "(int i = int pp - 1) = (i + 1 = pp)" "(int i = int pp - 2) = (i + 2 = pp)"
  by auto

lemma policy_arg_step_role:
  assumes "annotation p = None" "supported_policy pol"
  shows "policy_arg_step i p pp pol pt ut =
           Inr (case spec_policy_role pol pt pp i of
                  Some r \<Rightarrow> set_type (pname p) r ut
                | None \<Rightarrow> ut)"
proof -
  consider (flat) "isinstance_RangePolicy pol \<or> isinstance_TeamThreadRange pol"
    | (team) "isinstance_TeamPolicy pol"
        "\<not> (isinstance_RangePolicy pol \<or> isinstance_TeamThreadRange pol)"
    | (md) "isinstance_MDRangePolicy pol" "\<not> isinstance_TeamPolicy pol"
        "\<not> (isinstance_RangePolicy pol \<or> isinstance_TeamThreadRange pol)"
    using assms(2) unfolding supported_policy_def by blast
  then show ?thesis
  proof cases
    case flat
    then have "\<not> isinstance_TeamPolicy pol" "\<not> isinstance_MDRangePolicy pol"
      using policy_kinds_exclusive[of pol] by auto
    with flat show ?thesis
      using assms(1) unfolding policy_arg_step_def spec_policy_role_def int_pos_eqs Let_def
      by (cases "i = 0"; cases "i + 1 = pp"; cases "i + 2 = pp"; simp)
  next
    case team
    then have "\<not> isinstance_MDRangePolicy pol"
      using policy_kinds_exclusive[of pol] by auto
    with team show ?thesis
      using assms(1) unfolding policy_arg_step_def spec_policy_role_def int_pos_eqs Let_def
      by (cases "i = 0"; cases "i + 1 = pp"; cases "i + 2 = pp"; simp)
  next
    case md
    then show ?thesis
      using assms(1) unfolding policy_arg_step_def spec_policy_role_def int_pos_eqs Let_def
      by (cases "i < len_begin pol"; cases "i + 1 = pp"; cases "i + 2 = pp"; simp)
  qed
qed

lemma policy_arg_step_supported:
  assumes "policy_arg_step i p pp pol pt ut = Inr ut'" "annotation p = None"
  shows "supported_policy pol"
  using assms policy_arg_step_unsupported[of p pol i pp pt ut] by auto

lemma policy_arg_step_types:
  assumes "policy_arg_step i p pp pol pt ut = Inr ut'" "annotation p = None"
  shows "map_of (inferred_types ut') =
           (case spec_policy_role pol pt pp i of
              Some r \<Rightarrow> (map_of (inferred_types ut))(pname p \<mapsto> r)
            | None \<Rightarrow> map_of (inferred_types ut))"
proof -
  have "supported_policy pol" using assms by (rule policy_arg_step_supported)
  from policy_arg_step_role[OF assms(2) this, of i pp pt ut] assms(1)
  have "ut' = (case spec_policy_role pol pt pp i of
                  Some r \<Rightarrow> set_type (pname p) r ut | None \<Rightarrow> ut)" by simp
  then show ?thesis by (simp add: map_of_set_type split: option.splits)
qed

lemma policy_arg_step_layout:
  assumes "policy_arg_step i p pp pol pt ut = Inr ut'"
  shows "layout_change ut' = layout_change ut"
proof (cases "annotation p = None")
  case True
  have "supported_policy pol" using assms True by (rule policy_arg_step_supported)
  from policy_arg_step_role[OF True this, of i pp pt ut] assms
  show ?thesis by (auto split: option.splits)
next
  case False
  then show ?thesis using assms by (simp add: policy_arg_step_def)
qed

lemma policy_arg_step_frame:
  assumes "policy_arg_step i p pp pol pt ut = Inr ut'" "k \<noteq> pname p"
  shows "map_of (inferred_types ut') k = map_of (inferred_types ut) k"
proof (cases "annotation p = None")
  case True
  from policy_arg_step_types[OF assms(1) True] assms(2) show ?thesis
    by (auto split: option.splits)
next
  case False
  then show ?thesis using assms by (simp add: policy_arg_step_def)
qed

lemma policy_loop_Cons:
  assumes "infer_policy_loop (j # js) ps pp pol pt ut = Inr ut'"
  obtains u where "j < length ps" "policy_arg_step j (ps ! j) pp pol pt ut = Inr u"
    "infer_policy_loop js ps pp pol pt u = Inr ut'"
  using assms by (auto split: if_splits sum.splits)

lemma policy_loop_bounds:
  "infer_policy_loop js ps pp pol pt ut = Inr ut' \<Longrightarrow> \<forall>m\<in>set js. m < length ps"
proof (induction js arbitrary: ut)
  case Nil
  then show ?case by simp
next
  case (Cons j js)
  from Cons.prems obtain u where "j < length ps" "infer_policy_loop js ps pp pol pt u = Inr ut'"
    by (rule policy_loop_Cons)
  then show ?case using Cons.IH by auto
qed

lemma policy_loop_layout:
  "infer_policy_loop js ps pp pol pt ut = Inr ut' \<Longrightarrow> layout_change ut' = layout_change ut"
proof (induction js arbitrary: ut)
  case Nil
  then show ?case by simp
next
  case (Cons j js)
  from Cons.prems obtain u where
    "policy_arg_step j (ps ! j) pp pol pt ut = Inr u"
    "infer_policy_loop js ps pp pol pt u = Inr ut'"
    by (rule policy_loop_Cons)
  then show ?case using Cons.IH policy_arg_step_layout by metis
qed

lemma policy_loop_frame:
  assumes "infer_policy_loop js ps pp pol pt ut = Inr ut'"
    and "\<forall>j\<in>set js. pname (ps ! j) \<noteq> k"
  shows "map_of (inferred_types ut') k = map_of (inferred_types ut) k"
  using assms
proof (induction js arbitrary: ut)
  case Nil
  then show ?case by simp
next
  case (Cons j js)
  from Cons.prems(1) obtain u where
    st: "policy_arg_step j (ps ! j) pp pol pt ut = Inr u" and
    lp: "infer_policy_loop js ps pp pol pt u = Inr ut'"
    by (rule policy_loop_Cons)
  have a: "k \<noteq> pname (ps ! j)" and b: "\<forall>j\<in>set js. pname (ps ! j) \<noteq> k"
    using Cons.prems(2) by auto
  show ?case
    using Cons.IH[OF lp b] policy_arg_step_frame[OF st a] by simp
qed







section \<open>The value parameters\<close>

lemma map_of_set_layout:
  "map_of (layout_change (set_layout k l ut)) = (map_of (layout_change ut))(k \<mapsto> l)"
  by (simp add: set_layout_def update_conv')

lemma types_set_layout [simp]: "inferred_types (set_layout k l ut) = inferred_types ut"
  by (simp add: set_layout_def)

lemma other_arg_step_layout:
  assumes "other_arg_step ext space p v ut = Inr ut'"
  shows "map_of (layout_change ut') =
           (case view_layout ext space v of
              Some l \<Rightarrow> (map_of (layout_change ut))(pname p \<mapsto> l)
            | None \<Rightarrow> map_of (layout_change ut))"
  using assms
  by (auto simp: other_arg_step_def Let_def map_of_set_layout
           split: option.splits if_splits sum.splits)

lemma other_arg_step_declared:
  assumes "other_arg_step ext space p v ut = Inr ut'" "annotation p \<noteq> None"
  shows "inferred_types ut' = inferred_types ut"
  using assms
  by (auto simp: other_arg_step_def Let_def split: option.splits)

lemma other_arg_step_undeclared:
  assumes "other_arg_step ext space p v ut = Inr ut'" "annotation p = None"
  shows "\<exists>t. value_type ext p v = Inr t \<and>
             map_of (inferred_types ut') = (map_of (inferred_types ut))(pname p \<mapsto> t)"
  using assms
  by (auto simp: other_arg_step_def Let_def map_of_set_type
           split: option.splits sum.splits)

lemma other_arg_step_error:
  assumes "annotation p = None" "value_type ext p v = Inl e"
  shows "other_arg_step ext space p v ut = Inl e"
  using assms by (simp add: other_arg_step_def Let_def)

lemma other_arg_step_types_frame:
  assumes "other_arg_step ext space p v ut = Inr ut'" "annotation p = None \<longrightarrow> k \<noteq> pname p"
  shows "map_of (inferred_types ut') k = map_of (inferred_types ut) k"
proof (cases "annotation p = None")
  case True
  with other_arg_step_undeclared[OF assms(1) True] assms(2) show ?thesis by auto
next
  case False
  with other_arg_step_declared[OF assms(1) False] show ?thesis by simp
qed

lemma other_arg_step_layout_frame:
  assumes "other_arg_step ext space p v ut = Inr ut'" "k \<noteq> pname p"
  shows "map_of (layout_change ut') k = map_of (layout_change ut) k"
  using other_arg_step_layout[OF assms(1)] assms(2) by (auto split: option.splits)

lemma other_loop_Cons:
  assumes "infer_other_loop ext (j # js) ps pp args start space ut = Inr ut'"
  obtains u where "j < length ps" "start + j - pp < length args"
    "other_arg_step ext space (ps ! j) (args ! (start + j - pp)) ut = Inr u"
    "infer_other_loop ext js ps pp args start space u = Inr ut'"
  using assms by (auto split: if_splits sum.splits)

lemma other_loop_bounds:
  "infer_other_loop ext js ps pp args start space ut = Inr ut' \<Longrightarrow>
     \<forall>m\<in>set js. m < length ps \<and> start + m - pp < length args"
proof (induction js arbitrary: ut)
  case Nil
  then show ?case by simp
next
  case (Cons j js)
  from Cons.prems obtain u where "j < length ps" "start + j - pp < length args"
    "infer_other_loop ext js ps pp args start space u = Inr ut'"
    by (rule other_loop_Cons)
  then show ?case using Cons.IH by auto
qed

lemma other_loop_types_frame:
  assumes "infer_other_loop ext js ps pp args start space ut = Inr ut'"
    and "\<forall>j\<in>set js. annotation (ps ! j) = None \<longrightarrow> pname (ps ! j) \<noteq> k"
  shows "map_of (inferred_types ut') k = map_of (inferred_types ut) k"
  using assms
proof (induction js arbitrary: ut)
  case Nil
  then show ?case by simp
next
  case (Cons j js)
  from Cons.prems(1) obtain u where
    st: "other_arg_step ext space (ps ! j) (args ! (start + j - pp)) ut = Inr u" and
    lp: "infer_other_loop ext js ps pp args start space u = Inr ut'"
    by (rule other_loop_Cons)
  have a: "annotation (ps ! j) = None \<longrightarrow> k \<noteq> pname (ps ! j)"
    and b: "\<forall>j\<in>set js. annotation (ps ! j) = None \<longrightarrow> pname (ps ! j) \<noteq> k"
    using Cons.prems(2) by auto
  show ?case
    using Cons.IH[OF lp b] other_arg_step_types_frame[OF st a] by simp
qed

lemma other_loop_layout_frame:
  assumes "infer_other_loop ext js ps pp args start space ut = Inr ut'"
    and "\<forall>j\<in>set js. pname (ps ! j) \<noteq> k"
  shows "map_of (layout_change ut') k = map_of (layout_change ut) k"
  using assms
proof (induction js arbitrary: ut)
  case Nil
  then show ?case by simp
next
  case (Cons j js)
  from Cons.prems(1) obtain u where
    st: "other_arg_step ext space (ps ! j) (args ! (start + j - pp)) ut = Inr u" and
    lp: "infer_other_loop ext js ps pp args start space u = Inr ut'"
    by (rule other_loop_Cons)
  have a: "k \<noteq> pname (ps ! j)" and b: "\<forall>j\<in>set js. pname (ps ! j) \<noteq> k"
    using Cons.prems(2) by auto
  show ?case
    using Cons.IH[OF lp b] other_arg_step_layout_frame[OF st a] by simp
qed

lemma distinct_names_nth:
  assumes "distinct (map pname ps)" "i < length ps" "j < length ps" "i \<noteq> j"
  shows "pname (ps ! i) \<noteq> pname (ps ! j)"
  using assms by (auto simp: distinct_conv_nth)

lemma other_loop_entry:
  assumes "infer_other_loop ext js ps pp args start space ut = Inr ut'"
    and "i \<in> set js" "distinct js" "distinct (map pname ps)"
  shows "(\<forall>l. view_layout ext space (args ! (start + i - pp)) = Some l \<longrightarrow>
            map_of (layout_change ut') (pname (ps ! i)) = Some l)
       \<and> (annotation (ps ! i) = None \<longrightarrow>
            (\<exists>t. value_type ext (ps ! i) (args ! (start + i - pp)) = Inr t
               \<and> map_of (inferred_types ut') (pname (ps ! i)) = Some t))"
  using assms(1,2,3)
proof (induction js arbitrary: ut)
  case Nil
  then show ?case by simp
next
  case (Cons j js)
  from Cons.prems(1) obtain u where
    len: "j < length ps" and
    st: "other_arg_step ext space (ps ! j) (args ! (start + j - pp)) ut = Inr u" and
    lp: "infer_other_loop ext js ps pp args start space u = Inr ut'"
    by (rule other_loop_Cons)
  have inb: "\<forall>m\<in>set js. m < length ps"
    using other_loop_bounds[OF lp] by simp
  show ?case
  proof (cases "i = j")
    case True
    have rest: "\<forall>m\<in>set js. pname (ps ! m) \<noteq> pname (ps ! i)"
    proof
      fix m assume m: "m \<in> set js"
      then have "m \<noteq> i" using Cons.prems(3) True by auto
      moreover have "m < length ps" using inb m by simp
      ultimately show "pname (ps ! m) \<noteq> pname (ps ! i)"
        using distinct_names_nth[OF assms(4)] len True by simp
    qed
    have t: "map_of (inferred_types ut') (pname (ps ! i)) =
               map_of (inferred_types u) (pname (ps ! i))"
      using other_loop_types_frame[OF lp] rest by simp
    have l: "map_of (layout_change ut') (pname (ps ! i)) =
               map_of (layout_change u) (pname (ps ! i))"
      using other_loop_layout_frame[OF lp] rest by simp
    show ?thesis
      unfolding t l
      using other_arg_step_layout[OF st] other_arg_step_undeclared[OF st] True
      by auto
  next
    case False
    then have i: "i \<in> set js" using Cons.prems(2) by simp
    have dj: "distinct js" using Cons.prems(3) by simp
    show ?thesis using Cons.IH[OF lp i dj] .
  qed
qed


lemma not_isl_Inr: "\<not> isl x \<longleftrightarrow> (\<exists>t. x = Inr t)"
  by (cases x) auto

lemma other_arg_step_ok:
  assumes "annotation p \<noteq> None \<or> (\<exists>t. value_type ext p v = Inr t)"
  shows "\<exists>u. other_arg_step ext space p v ut = Inr u"
  using assms by (auto simp: other_arg_step_def Let_def)

lemma other_loop_first_error:
  assumes "i \<in> set js" "sorted js" "i < length ps" "start + i - pp < length args"
    and "annotation (ps ! i) = None"
    and "value_type ext (ps ! i) (args ! (start + i - pp)) = Inl e"
    and "\<forall>j\<in>set js. j < i \<and> annotation (ps ! j) = None \<longrightarrow>
           (\<exists>t. value_type ext (ps ! j) (args ! (start + j - pp)) = Inr t)"
  shows "infer_other_loop ext js ps pp args start space ut = Inl e"
  using assms(1,2,7)
proof (induction js arbitrary: ut)
  case Nil
  then show ?case by simp
next
  case (Cons j js)
  have ji: "j \<le> i" using Cons.prems(1,2) by auto
  then have jl: "j < length ps" "start + j - pp < length args"
    using assms(3,4) by auto
  show ?case
  proof (cases "j = i")
    case True
    then show ?thesis
      using jl other_arg_step_error[OF assms(5,6)] by simp
  next
    case False
    then have lt: "j < i" using ji by simp
    have "annotation (ps ! j) \<noteq> None
            \<or> (\<exists>t. value_type ext (ps ! j) (args ! (start + j - pp)) = Inr t)"
      using Cons.prems(3) lt by auto
    then obtain u where
      u: "other_arg_step ext space (ps ! j) (args ! (start + j - pp)) ut = Inr u"
      using other_arg_step_ok by blast
    have "i \<in> set js" using Cons.prems(1) False by auto
    then have "infer_other_loop ext js ps pp args start space u = Inl e"
      using Cons.IH Cons.prems(2,3) by simp
    then show ?thesis using jl u by simp
  qed
qed

lemma infer_other_args_first_error:
  assumes "pp \<le> i" "i < length ps" "start + i - pp < length args"
    and "annotation (ps ! i) = None"
    and "value_type ext (ps ! i) (args ! (start + i - pp)) = Inl e"
    and "no_earlier_error ext ps pp args start i"
  shows "infer_other_args ext ps pp args start space ut = Inl e"
  unfolding infer_other_args_def
proof (rule other_loop_first_error[OF _ _ assms(2,3,4,5)])
  show "i \<in> set [pp..<length ps]" using assms(1,2) by simp
  show "sorted [pp..<length ps]" by simp
  show "\<forall>j\<in>set [pp..<length ps]. j < i \<and> annotation (ps ! j) = None \<longrightarrow>
           (\<exists>t. value_type ext (ps ! j) (args ! (start + j - pp)) = Inr t)"
    using assms(6) by (auto simp: no_earlier_error_def not_isl_Inr)
qed

lemma infer_other_args_entry:
  assumes "infer_other_args ext ps pp args start space ut = Inr ut'"
    and "pp \<le> i" "i < length ps" "distinct (map pname ps)"
  shows "(\<forall>l. view_layout ext space (args ! (start + i - pp)) = Some l \<longrightarrow>
            map_of (layout_change ut') (pname (ps ! i)) = Some l)
       \<and> (annotation (ps ! i) = None \<longrightarrow>
            (\<exists>t. value_type ext (ps ! i) (args ! (start + i - pp)) = Inr t
               \<and> map_of (inferred_types ut') (pname (ps ! i)) = Some t))"
proof (rule other_loop_entry[OF assms(1)[unfolded infer_other_args_def] _ _ assms(4)])
  show "i \<in> set [pp..<length ps]" using assms(2,3) by simp
  show "distinct [pp..<length ps]" by simp
qed

lemma value_type_int:
  "value_type ext p (VInt n) = Inr (if bit_length n > 31 then ''numpy:int64'' else ''int'')"
  by (simp add: value_type_def)

lemma value_type_numpy:
  assumes "tn \<noteq> ''int''"
  shows "value_type ext p (VNumpy tn) =
           (if tn \<notin> set (SUPPORTED_NP_DTYPES ext) then Inl (TypeError_numpy_type_unsupported tn)
            else Inr (''numpy:'' @ spec_alias tn))"
  using assms by (simp add: value_type_def spec_alias_def Let_def)

lemma get_pk_datatype_spec:
  "get_pk_datatype dt = map_option spec_alias (spec_dtype_name dt)"
  by (cases dt) (auto simp: get_pk_datatype_def spec_alias_def Let_def)

lemma spec_alias_empty [simp]: "spec_alias n = [] \<longleftrightarrow> n = []"
  by (simp add: spec_alias_def)

lemma value_type_view:
  "value_type ext p (VView lay shp dt) =
     (case spec_dtype_name dt of
        None \<Rightarrow> Inl (TypeError_cannot_infer_datatype_for_view (pname p))
      | Some n \<Rightarrow>
          if n = [] then Inl (TypeError_cannot_infer_datatype_for_view (pname p))
          else Inr (''View'' @ str_nat (length shp) @ ''D:'' @ spec_alias n))"
  by (simp add: value_type_def get_pk_datatype_spec Let_def split: option.splits)

lemma view_layout_view:
  "view_layout ext space (VView lay shp dt) =
     Some (let l = (if lay \<noteq> LayoutDefault then lay else get_default_layout ext space)
           in if l = LayoutRight then ''LayoutRight'' else ''LayoutLeft'')"
  by (simp add: view_layout_def Let_def)

lemma bit_length_nat_le: "bit_length_nat n \<le> k \<longleftrightarrow> n < 2 ^ k"
proof (induction n arbitrary: k rule: bit_length_nat.induct)
  case (1 n)
  show ?case
  proof (cases "n = 0")
    case True
    then show ?thesis by (simp add: bit_length_nat.simps)
  next
    case False
    show ?thesis
    proof (cases k)
      case 0
      then show ?thesis using False by (simp add: bit_length_nat.simps[of n])
    next
      case (Suc k')
      have "bit_length_nat n \<le> Suc k' \<longleftrightarrow> bit_length_nat (n div 2) \<le> k'"
        using False by (simp add: bit_length_nat.simps[of n])
      also have "\<dots> \<longleftrightarrow> n div 2 < 2 ^ k'" using 1[OF False] .
      also have "\<dots> \<longleftrightarrow> n < 2 ^ Suc k'" by auto
      finally show ?thesis using Suc by simp
    qed
  qed
qed

lemma bit_length_le: "bit_length x \<le> k \<longleftrightarrow> \<bar>x\<bar> < 2 ^ k"
proof -
  have "bit_length x \<le> k \<longleftrightarrow> nat \<bar>x\<bar> < 2 ^ k"
    by (simp add: bit_length_def bit_length_nat_le)
  also have "\<dots> \<longleftrightarrow> \<bar>x\<bar> < 2 ^ k"
    by (metis abs_ge_zero nat_less_iff of_nat_numeral of_nat_power)
  finally show ?thesis .
qed

lemma bit_length_eq_Suc: "bit_length x = Suc k \<longleftrightarrow> 2 ^ k \<le> \<bar>x\<bar> \<and> \<bar>x\<bar> < 2 ^ Suc k"
proof -
  have "bit_length x = Suc k \<longleftrightarrow> bit_length x \<le> Suc k \<and> \<not> bit_length x \<le> k" by arith
  then show ?thesis unfolding bit_length_le by auto
qed

lemma bit_length_gt: "k < bit_length x \<longleftrightarrow> 2 ^ k \<le> \<bar>x\<bar>"
  using bit_length_le[of x k] by auto

lemma str_nat_digit: "n < 10 \<Longrightarrow> str_nat n = [''0123456789'' ! n]"
  by (simp add: str_nat.simps)

lemma get_annotations_Inr_other:
  assumes "get_annotations ext pt h args kw = Inr r"
    and "signature_parameters (workunit h) = Inr ps"
    and "length ps \<noteq> policy_params_of pt (policy h)"
  obtains ut1 space ut2 where
    "infer_policy_args ps (policy_params_of pt (policy h)) (policy h) pt
       \<lparr>ut_workunit = workunit h, inferred_types = [], param_list = ps,
        layout_change = [], types_signature = None\<rparr> = Inr ut1"
    "int (length ps) - int (policy_params_of pt (policy h))
       = int (length (args_list_of ps (policy_params_of pt (policy h)) args kw))
         - int (value_idx_of h)"
    "policy_space (policy h) = Inr space"
    "infer_other_args ext ps (policy_params_of pt (policy h))
       (args_list_of ps (policy_params_of pt (policy h)) args kw) (value_idx_of h) space ut1
       = Inr ut2"
    "r = (if length (inferred_types ut2) = 0 \<and> length (layout_change ut2) = 0 then None
          else Some (ut2\<lparr>types_signature :=
                           get_types_sig (inferred_types ut2) (layout_change ut2)\<rparr>))"
  using assms by (auto simp: get_annotations_def Let_def split: sum.splits if_splits)

lemmas eval_defs =
  infer_other_args_def infer_policy_args_def upt_rec other_arg_step_def policy_arg_step_def
  value_type_def view_layout_def set_type_def set_layout_def get_pk_datatype_def
  SUPPORTED_NP_DTYPES_def str_nat_digit policy_params_of_def args_list_of_def
  value_idx_of_def get_annotations_def no_earlier_error_def bit_length_gt

text \<open>
  C5. A built-in integer bound to a value parameter without declared type is inferred as
  \<open>int\<close> when its bit length is at most 31, that is when its absolute value is below
  \<open>2^31\<close>, and as \<open>numpy:int64\<close> when its bit length is 32 or more; bit length 31 gives
  \<open>int\<close> and bit length 32 gives \<open>numpy:int64\<close>.
\<close>

theorem integer_promotion:
  assumes "distinct (map pname ps)" and "policy_params \<le> i" and "i < length ps"
    and "annotation (ps ! i) = None"
    and "args_list ! (start_idx + i - policy_params) = VInt n"
    and "infer_other_args ext ps policy_params args_list start_idx space ut = Inr ut'"
  shows "map_of (inferred_types ut') (pname (ps ! i))
           = Some (if bit_length n \<le> 31 then ''int'' else ''numpy:int64'')
       \<and> (bit_length n \<le> 31 \<longleftrightarrow> \<bar>n\<bar> < 2 ^ 31)
       \<and> (bit_length n = 31 \<longrightarrow> map_of (inferred_types ut') (pname (ps ! i)) = Some ''int'')
       \<and> (bit_length n = 32 \<longrightarrow>
             map_of (inferred_types ut') (pname (ps ! i)) = Some ''numpy:int64'')"
proof -
  from infer_other_args_entry[OF assms(6,2,3,1)] assms(4,5)
  have "map_of (inferred_types ut') (pname (ps ! i))
          = Some (if bit_length n \<le> 31 then ''int'' else ''numpy:int64'')"
    by (auto simp: value_type_int)
  moreover have "bit_length n \<le> 31 \<longleftrightarrow> \<bar>n\<bar> < 2 ^ 31" by (rule bit_length_le)
  moreover have "bit_length n = 31 \<longrightarrow> bit_length n \<le> 31"
    and "bit_length n = 32 \<longrightarrow> \<not> bit_length n \<le> 31" by auto
  ultimately show ?thesis by presburger
qed

theorem integer_promotion_witness:
  "infer_other_args
      \<lparr>dir_DataType = [''__class__'', ''int32'', ''double''],
       get_default_layout = (\<lambda>s. LayoutRight)\<rparr>
      [\<lparr>pname = ''i'', annotation = None\<rparr>, \<lparr>pname = ''n'', annotation = None\<rparr>] 1
      [VInt 10, VFunction [], VInt 2147483647] 2 OpenMP
      \<lparr>ut_workunit = VNone, inferred_types = [], param_list = [], layout_change = [],
       types_signature = None\<rparr>
    = Inr \<lparr>ut_workunit = VNone, inferred_types = [(''n'', ''int'')], param_list = [],
           layout_change = [], types_signature = None\<rparr>
   \<and> bit_length 2147483647 = 31
   \<and> infer_other_args
      \<lparr>dir_DataType = [''__class__'', ''int32'', ''double''],
       get_default_layout = (\<lambda>s. LayoutRight)\<rparr>
      [\<lparr>pname = ''i'', annotation = None\<rparr>, \<lparr>pname = ''n'', annotation = None\<rparr>] 1
      [VInt 10, VFunction [], VInt 2147483648] 2 OpenMP
      \<lparr>ut_workunit = VNone, inferred_types = [], param_list = [], layout_change = [],
       types_signature = None\<rparr>
    = Inr \<lparr>ut_workunit = VNone, inferred_types = [(''n'', ''numpy:int64'')], param_list = [],
           layout_change = [], types_signature = None\<rparr>
   \<and> bit_length 2147483648 = 32"
proof -
  let ?ext = "\<lparr>dir_DataType = [''__class__'', ''int32'', ''double''],
       get_default_layout = (\<lambda>s. LayoutRight)\<rparr>"
  let ?ps = "[\<lparr>pname = ''i'', annotation = None\<rparr>, \<lparr>pname = ''n'', annotation = None\<rparr>]"
  let ?ut = "\<lparr>ut_workunit = VNone, inferred_types = [], param_list = [], layout_change = [],
       types_signature = None\<rparr>"
  let ?a = "[VInt 10, VFunction [], VInt 2147483647]"
  let ?b = "[VInt 10, VFunction [], VInt 2147483648]"
  let ?ua = "\<lparr>ut_workunit = VNone, inferred_types = [(''n'', ''int'')], param_list = [],
           layout_change = [], types_signature = None\<rparr>"
  let ?ub = "\<lparr>ut_workunit = VNone, inferred_types = [(''n'', ''numpy:int64'')], param_list = [],
           layout_change = [], types_signature = None\<rparr>"
  have ra: "infer_other_args ?ext ?ps 1 ?a 2 OpenMP ?ut = Inr ?ua"
    by (simp add: infer_other_args_def upt_rec other_arg_step_def value_type_int
          view_layout_def set_type_def bit_length_gt)
  have rb: "infer_other_args ?ext ?ps 1 ?b 2 OpenMP ?ut = Inr ?ub"
    by (simp add: infer_other_args_def upt_rec other_arg_step_def value_type_int
          view_layout_def set_type_def bit_length_gt)
  have h: "distinct (map pname ?ps)" "(1::nat) \<le> 1" "1 < length ?ps"
    "annotation (?ps ! 1) = None"
    by simp_all
  have va: "?a ! (2 + 1 - 1) = VInt 2147483647" and vb: "?b ! (2 + 1 - 1) = VInt 2147483648"
    by simp_all
  have la: "bit_length 2147483647 = 31"
    using bit_length_eq_Suc[of 2147483647 30] by simp
  have lb: "bit_length 2147483648 = 32"
    using bit_length_eq_Suc[of 2147483648 31] by simp
  from integer_promotion[OF h va ra] integer_promotion[OF h vb rb] ra rb la lb
  show ?thesis by simp
qed


text \<open>
  C6. A value of a numpy type named \<open>tn\<close> (numpy has no type named \<open>int\<close>) bound to a
  value parameter without declared type: the allow-list is the attribute names of
  \<open>DataType\<close> that do not start with two underscores, plus \<open>float64\<close> and \<open>float32\<close>;
  when the inference returns, \<open>tn\<close> is in the allow-list and the parameter is inferred
  as \<open>numpy:\<close> followed by the name, with \<open>float64\<close> renamed \<open>double\<close> and \<open>float32\<close>
  renamed \<open>float\<close>; when \<open>tn\<close> is not in the allow-list the inference does not return,
  the error is the unsupported-type error of \<open>tn\<close> if no earlier value parameter raises,
  and \<open>get_annotations\<close> returns no result, hence no signature.
\<close>

theorem numpy_scalars:
  assumes "distinct (map pname ps)" and "policy_params \<le> i" and "i < length ps"
    and "annotation (ps ! i) = None"
    and "args_list ! (start_idx + i - policy_params) = VNumpy tn" and "tn \<noteq> ''int''"
  shows
    "set (SUPPORTED_NP_DTYPES ext)
       = {a \<in> set (dir_DataType ext). \<not> prefix ''__'' a} \<union> {''float64'', ''float32''}
     \<and> (infer_other_args ext ps policy_params args_list start_idx space ut = Inr ut' \<longrightarrow>
          tn \<in> set (SUPPORTED_NP_DTYPES ext)
          \<and> map_of (inferred_types ut') (pname (ps ! i)) = Some (''numpy:'' @ spec_alias tn))
     \<and> (tn \<notin> set (SUPPORTED_NP_DTYPES ext) \<longrightarrow>
          (\<forall>u. infer_other_args ext ps policy_params args_list start_idx space ut \<noteq> Inr u)
          \<and> (start_idx + i - policy_params < length args_list
               \<and> no_earlier_error ext ps policy_params args_list start_idx i \<longrightarrow>
              infer_other_args ext ps policy_params args_list start_idx space ut
                = Inl (TypeError_numpy_type_unsupported tn))
          \<and> (signature_parameters (workunit h) = Inr ps
               \<and> policy_params = policy_params_of pt (policy h)
               \<and> args_list = args_list_of ps policy_params args kw
               \<and> start_idx = value_idx_of h \<longrightarrow>
              (\<forall>r. get_annotations ext pt h args kw \<noteq> Inr r)))"
proof (intro conjI impI allI)
  show "set (SUPPORTED_NP_DTYPES ext)
       = {a \<in> set (dir_DataType ext). \<not> prefix ''__'' a} \<union> {''float64'', ''float32''}"
    by (auto simp: SUPPORTED_NP_DTYPES_def)
next
  assume ok: "infer_other_args ext ps policy_params args_list start_idx space ut = Inr ut'"
  from infer_other_args_entry[OF ok assms(2,3,1)] assms(4,5)
  obtain t where t: "value_type ext (ps ! i) (VNumpy tn) = Inr t"
    "map_of (inferred_types ut') (pname (ps ! i)) = Some t" by auto
  from t(1) show "tn \<in> set (SUPPORTED_NP_DTYPES ext)"
    unfolding value_type_numpy[OF assms(6)] by (auto split: if_splits)
  from t show "map_of (inferred_types ut') (pname (ps ! i)) = Some (''numpy:'' @ spec_alias tn)"
    unfolding value_type_numpy[OF assms(6)] by (auto split: if_splits)
next
  fix u
  assume un: "tn \<notin> set (SUPPORTED_NP_DTYPES ext)"
  show "infer_other_args ext ps policy_params args_list start_idx space ut \<noteq> Inr u"
  proof
    assume ok: "infer_other_args ext ps policy_params args_list start_idx space ut = Inr u"
    from infer_other_args_entry[OF ok assms(2,3,1)] assms(4,5)
    obtain t where "value_type ext (ps ! i) (VNumpy tn) = Inr t" by auto
    then show False using un unfolding value_type_numpy[OF assms(6)] by simp
  qed
next
  assume un: "tn \<notin> set (SUPPORTED_NP_DTYPES ext)"
    and b: "start_idx + i - policy_params < length args_list
               \<and> no_earlier_error ext ps policy_params args_list start_idx i"
  have e: "value_type ext (ps ! i) (args_list ! (start_idx + i - policy_params))
             = Inl (TypeError_numpy_type_unsupported tn)"
    using un assms(5) by (simp add: value_type_numpy[OF assms(6)])
  show "infer_other_args ext ps policy_params args_list start_idx space ut
                = Inl (TypeError_numpy_type_unsupported tn)"
    using infer_other_args_first_error[OF assms(2,3) _ assms(4) e] b by blast
next
  fix r
  assume un: "tn \<notin> set (SUPPORTED_NP_DTYPES ext)"
    and c: "signature_parameters (workunit h) = Inr ps
               \<and> policy_params = policy_params_of pt (policy h)
               \<and> args_list = args_list_of ps policy_params args kw
               \<and> start_idx = value_idx_of h"
  show "get_annotations ext pt h args kw \<noteq> Inr r"
  proof
    assume ok: "get_annotations ext pt h args kw = Inr r"
    have ne: "length ps \<noteq> policy_params_of pt (policy h)"
      using assms(2,3) c by auto
    from c have sp: "signature_parameters (workunit h) = Inr ps" by simp
    from ok sp ne obtain ut1 sp1 ut2 where
      "infer_other_args ext ps (policy_params_of pt (policy h))
         (args_list_of ps (policy_params_of pt (policy h)) args kw) (value_idx_of h) sp1 ut1
         = Inr ut2" by (rule get_annotations_Inr_other)
    then have ok2: "infer_other_args ext ps policy_params args_list start_idx sp1 ut1 = Inr ut2"
      using c by simp
    from infer_other_args_entry[OF ok2 assms(2,3,1)] assms(4,5)
    obtain t where "value_type ext (ps ! i) (VNumpy tn) = Inr t" by auto
    then show False using un unfolding value_type_numpy[OF assms(6)] by simp
  qed
qed

text \<open>
  C7, as the code has it: for the instances of \<open>View\<close>, which lines 232 and 258 test for.
  A \<open>View\<close> bound to a value parameter, of a parameter list with distinct names:
  when the inference returns, the layout recorded under the parameter's name is the
  view's own layout if it is not \<open>LayoutDefault\<close> and otherwise the default layout of the
  execution space (\<open>get_default_layout\<close>, which is taken to return \<open>LayoutLeft\<close> or
  \<open>LayoutRight\<close>), whether the parameter has a declared type or not; a parameter without
  declared type is inferred as \<open>View\<close>, the number of dimensions, \<open>D:\<close> and the name of
  the element dtype with \<open>float64\<close> renamed \<open>double\<close> and \<open>float32\<close> renamed \<open>float\<close>.
  When the dtype has no name (or an empty one), the inference raises the error that names
  the parameter, if no earlier value parameter raises.
\<close>

theorem view_inference:
  assumes "distinct (map pname ps)" and "policy_params \<le> i" and "i < length ps"
    and "args_list ! (start_idx + i - policy_params) = VView lay shp dt"
  shows
    "(infer_other_args ext ps policy_params args_list start_idx space ut = Inr ut' \<longrightarrow>
        (lay \<noteq> LayoutDefault \<longrightarrow>
           map_of (layout_change ut') (pname (ps ! i)) = Some (spec_layout_tag lay))
      \<and> (lay = LayoutDefault \<and> get_default_layout ext space \<noteq> LayoutDefault \<longrightarrow>
           map_of (layout_change ut') (pname (ps ! i))
             = Some (spec_layout_tag (get_default_layout ext space)))
      \<and> (annotation (ps ! i) = None \<longrightarrow>
           (\<exists>n. spec_dtype_name dt = Some n
              \<and> map_of (inferred_types ut') (pname (ps ! i))
                  = Some (''View'' @ str_nat (length shp) @ ''D:'' @ spec_alias n))))
     \<and> (annotation (ps ! i) = None
          \<and> (spec_dtype_name dt = None \<or> spec_dtype_name dt = Some [])
          \<and> start_idx + i - policy_params < length args_list
          \<and> no_earlier_error ext ps policy_params args_list start_idx i \<longrightarrow>
         infer_other_args ext ps policy_params args_list start_idx space ut
           = Inl (TypeError_cannot_infer_datatype_for_view (pname (ps ! i))))"
proof (intro conjI impI)
  assume ok: "infer_other_args ext ps policy_params args_list start_idx space ut = Inr ut'"
  note en = infer_other_args_entry[OF ok assms(2,3,1), unfolded assms(4)]
  define tag where
    "tag = (let l = (if lay \<noteq> LayoutDefault then lay else get_default_layout ext space)
            in if l = LayoutRight then ''LayoutRight'' else ''LayoutLeft'')"
  have "view_layout ext space (VView lay shp dt) = Some tag"
    unfolding tag_def by (rule view_layout_view)
  with en have lay: "map_of (layout_change ut') (pname (ps ! i)) = Some tag" by blast
  { assume "lay \<noteq> LayoutDefault"
    then have "tag = spec_layout_tag lay" unfolding tag_def by (cases lay) simp_all
    then show "map_of (layout_change ut') (pname (ps ! i)) = Some (spec_layout_tag lay)"
      using lay by simp }
  { assume d: "lay = LayoutDefault \<and> get_default_layout ext space \<noteq> LayoutDefault"
    then have "tag = spec_layout_tag (get_default_layout ext space)"
      unfolding tag_def by (cases "get_default_layout ext space") simp_all
    then show "map_of (layout_change ut') (pname (ps ! i))
             = Some (spec_layout_tag (get_default_layout ext space))"
      using lay by simp }
  { assume "annotation (ps ! i) = None"
    with en obtain t where t: "value_type ext (ps ! i) (VView lay shp dt) = Inr t"
      "map_of (inferred_types ut') (pname (ps ! i)) = Some t" by blast
    from t(1) obtain n where "spec_dtype_name dt = Some n"
      "t = ''View'' @ str_nat (length shp) @ ''D:'' @ spec_alias n"
      unfolding value_type_view by (cases "spec_dtype_name dt") (auto split: if_splits)
    with t(2) show "\<exists>n. spec_dtype_name dt = Some n
              \<and> map_of (inferred_types ut') (pname (ps ! i))
                  = Some (''View'' @ str_nat (length shp) @ ''D:'' @ spec_alias n)"
      by blast }
next
  assume a: "annotation (ps ! i) = None
          \<and> (spec_dtype_name dt = None \<or> spec_dtype_name dt = Some [])
          \<and> start_idx + i - policy_params < length args_list
          \<and> no_earlier_error ext ps policy_params args_list start_idx i"
  then have e: "value_type ext (ps ! i) (args_list ! (start_idx + i - policy_params))
             = Inl (TypeError_cannot_infer_datatype_for_view (pname (ps ! i)))"
    using assms(4) by (auto simp: value_type_view)
  show "infer_other_args ext ps policy_params args_list start_idx space ut
           = Inl (TypeError_cannot_infer_datatype_for_view (pname (ps ! i)))"
    using infer_other_args_first_error[OF assms(2,3) _ _ e] a by blast
qed


theorem numpy_scalars_witness:
  "infer_other_args
      \<lparr>dir_DataType = [''__class__'', ''int32'', ''double''],
       get_default_layout = (\<lambda>s. LayoutRight)\<rparr>
      [\<lparr>pname = ''i'', annotation = None\<rparr>, \<lparr>pname = ''x'', annotation = None\<rparr>] 1
      [VInt 10, VFunction [\<lparr>pname = ''i'', annotation = None\<rparr>, \<lparr>pname = ''x'', annotation = None\<rparr>],
       VNumpy ''float64''] 2 OpenMP
      \<lparr>ut_workunit = VNone, inferred_types = [], param_list = [], layout_change = [],
       types_signature = None\<rparr>
    = Inr \<lparr>ut_workunit = VNone, inferred_types = [(''x'', ''numpy:double'')],
           param_list = [], layout_change = [], types_signature = None\<rparr>
   \<and> infer_other_args
      \<lparr>dir_DataType = [''__class__'', ''int32'', ''double''],
       get_default_layout = (\<lambda>s. LayoutRight)\<rparr>
      [\<lparr>pname = ''i'', annotation = None\<rparr>, \<lparr>pname = ''x'', annotation = None\<rparr>] 1
      [VInt 10, VFunction [\<lparr>pname = ''i'', annotation = None\<rparr>, \<lparr>pname = ''x'', annotation = None\<rparr>],
       VNumpy ''datetime64''] 2 OpenMP
      \<lparr>ut_workunit = VNone, inferred_types = [], param_list = [], layout_change = [],
       types_signature = None\<rparr>
    = Inl (TypeError_numpy_type_unsupported ''datetime64'')
   \<and> get_annotations
      \<lparr>dir_DataType = [''__class__'', ''int32'', ''double''],
       get_default_layout = (\<lambda>s. LayoutRight)\<rparr>
      ''parallel_for''
      \<lparr>name = None, policy = VPolicy (RangePolicy OpenMP 0 10),
       workunit = VFunction
         [\<lparr>pname = ''i'', annotation = None\<rparr>, \<lparr>pname = ''x'', annotation = None\<rparr>],
       view = None, initial_value = VInt 0\<rparr>
      [VInt 10, VFunction [\<lparr>pname = ''i'', annotation = None\<rparr>, \<lparr>pname = ''x'', annotation = None\<rparr>],
       VNumpy ''datetime64''] []
    = Inl (TypeError_numpy_type_unsupported ''datetime64'')"
proof -
  let ?ext = "\<lparr>dir_DataType = [''__class__'', ''int32'', ''double''],
       get_default_layout = (\<lambda>s. LayoutRight)\<rparr>"
  let ?ps = "[\<lparr>pname = ''i'', annotation = None\<rparr>, \<lparr>pname = ''x'', annotation = None\<rparr>]"
  let ?ut = "\<lparr>ut_workunit = VNone, inferred_types = [], param_list = [], layout_change = [],
       types_signature = None\<rparr>"
  let ?a = "[VInt 10, VFunction [\<lparr>pname = ''i'', annotation = None\<rparr>, \<lparr>pname = ''x'', annotation = None\<rparr>],
       VNumpy ''float64'']"
  let ?b = "[VInt 10, VFunction [\<lparr>pname = ''i'', annotation = None\<rparr>, \<lparr>pname = ''x'', annotation = None\<rparr>],
       VNumpy ''datetime64'']"
  let ?ua = "\<lparr>ut_workunit = VNone, inferred_types = [(''x'', ''numpy:double'')],
           param_list = [], layout_change = [], types_signature = None\<rparr>"
  let ?h = "\<lparr>name = None, policy = VPolicy (RangePolicy OpenMP 0 10),
       workunit = VFunction ?ps, view = None, initial_value = VInt 0\<rparr>"
  have ra: "infer_other_args ?ext ?ps 1 ?a 2 OpenMP ?ut = Inr ?ua"
    by (simp add: eval_defs)
  have h: "distinct (map pname ?ps)" "(1::nat) \<le> 1" "1 < length ?ps"
    "annotation (?ps ! 1) = None"
    by simp_all
  have va: "?a ! (2 + 1 - 1) = VNumpy ''float64''" "''float64'' \<noteq> ''int''"
    and vb: "?b ! (2 + 1 - 1) = VNumpy ''datetime64''" "''datetime64'' \<noteq> ''int''"
    by simp_all
  have un: "''datetime64'' \<notin> set (SUPPORTED_NP_DTYPES ?ext)"
    by (simp add: SUPPORTED_NP_DTYPES_def)
  have ne: "(2::nat) + 1 - 1 < length ?b \<and> no_earlier_error ?ext ?ps 1 ?b 2 1"
    by (simp add: no_earlier_error_def)
  have ga: "get_annotations ?ext ''parallel_for'' ?h ?b []
              = Inl (TypeError_numpy_type_unsupported ''datetime64'')"
    by (simp add: eval_defs)
  from numpy_scalars[OF h va, where ext="?ext" and space=OpenMP and ut="?ut" and ut'="?ua"]
       numpy_scalars[OF h vb, where ext="?ext" and space=OpenMP and ut="?ut" and h="?h"
                        and pt="''parallel_for''" and args="?b" and kw="[]"]
       ra un ne ga
  show ?thesis by simp
qed

theorem view_inference_witness:
  "infer_other_args
      \<lparr>dir_DataType = [''__class__'', ''int32'', ''double''],
       get_default_layout = (\<lambda>s. LayoutRight)\<rparr>
      [\<lparr>pname = ''i'', annotation = None\<rparr>, \<lparr>pname = ''v'', annotation = None\<rparr>,
       \<lparr>pname = ''w'', annotation = Some ''pk.View1D[pk.int32]''\<rparr>] 1
      [VInt 10, VFunction [], VView LayoutDefault [2, 3] (VDataType ''float64''),
       VView LayoutLeft [4] (VClass ''int32'' True)] 2 OpenMP
      \<lparr>ut_workunit = VNone, inferred_types = [], param_list = [], layout_change = [],
       types_signature = None\<rparr>
    = Inr \<lparr>ut_workunit = VNone, inferred_types = [(''v'', ''View2D:double'')],
           param_list = [],
           layout_change = [(''v'', ''LayoutRight''), (''w'', ''LayoutLeft'')],
           types_signature = None\<rparr>
   \<and> map_of [(''v'', ''LayoutRight''), (''w'', ''LayoutLeft'')] ''w'' = Some ''LayoutLeft''
   \<and> infer_other_args
      \<lparr>dir_DataType = [''__class__'', ''int32'', ''double''],
       get_default_layout = (\<lambda>s. LayoutRight)\<rparr>
      [\<lparr>pname = ''i'', annotation = None\<rparr>, \<lparr>pname = ''v'', annotation = None\<rparr>,
       \<lparr>pname = ''w'', annotation = Some ''pk.View1D[pk.int32]''\<rparr>] 1
      [VInt 10, VFunction [], VView LayoutDefault [2, 3] VNone,
       VView LayoutLeft [4] (VClass ''int32'' True)] 2 OpenMP
      \<lparr>ut_workunit = VNone, inferred_types = [], param_list = [], layout_change = [],
       types_signature = None\<rparr>
    = Inl (TypeError_cannot_infer_datatype_for_view ''v'')"
proof -
  let ?ext = "\<lparr>dir_DataType = [''__class__'', ''int32'', ''double''],
       get_default_layout = (\<lambda>s. LayoutRight)\<rparr>"
  let ?ps = "[\<lparr>pname = ''i'', annotation = None\<rparr>, \<lparr>pname = ''v'', annotation = None\<rparr>,
       \<lparr>pname = ''w'', annotation = Some ''pk.View1D[pk.int32]''\<rparr>]"
  let ?ut = "\<lparr>ut_workunit = VNone, inferred_types = [], param_list = [], layout_change = [],
       types_signature = None\<rparr>"
  let ?a = "[VInt 10, VFunction [], VView LayoutDefault [2, 3] (VDataType ''float64''),
       VView LayoutLeft [4] (VClass ''int32'' True)]"
  let ?b = "[VInt 10, VFunction [], VView LayoutDefault [2, 3] VNone,
       VView LayoutLeft [4] (VClass ''int32'' True)]"
  let ?ua = "\<lparr>ut_workunit = VNone, inferred_types = [(''v'', ''View2D:double'')],
           param_list = [],
           layout_change = [(''v'', ''LayoutRight''), (''w'', ''LayoutLeft'')],
           types_signature = None\<rparr>"
  have ra: "infer_other_args ?ext ?ps 1 ?a 2 OpenMP ?ut = Inr ?ua"
    by (simp add: eval_defs)
  have d: "distinct (map pname ?ps)" by simp
  have i1: "(1::nat) \<le> 1" "1 < length ?ps" and i2: "(1::nat) \<le> 2" "2 < length ?ps"
    by simp_all
  have v1: "?a ! (2 + 1 - 1) = VView LayoutDefault [2, 3] (VDataType ''float64'')"
    and v2: "?a ! (2 + 2 - 1) = VView LayoutLeft [4] (VClass ''int32'' True)"
    and v3: "?b ! (2 + 1 - 1) = VView LayoutDefault [2, 3] VNone"
    by simp_all
  have ne: "annotation (?ps ! 1) = None
      \<and> (spec_dtype_name VNone = None \<or> spec_dtype_name VNone = Some [])
      \<and> (2::nat) + 1 - 1 < length ?b \<and> no_earlier_error ?ext ?ps 1 ?b 2 1"
    by (simp add: no_earlier_error_def)
  from view_inference[OF d i1 v1, where ext="?ext" and space=OpenMP and ut="?ut" and ut'="?ua"]
       view_inference[OF d i2 v2, where ext="?ext" and space=OpenMP and ut="?ut" and ut'="?ua"]
       view_inference[OF d i1 v3, where ext="?ext" and space=OpenMP and ut="?ut"]
       ra ne
  show ?thesis by simp
qed

text \<open>
  The claim as stated fails for a \<open>Subview\<close>, which is a \<open>ViewType\<close> (the test of
  \<open>handle_args\<close>, line 68) and not a \<open>View\<close>: bound to a value parameter without
  declared type, it gets no layout entry, and its inferred type is the name of its class.
\<close>

theorem view_inference_counterexample:
  "isinstance_ViewType VSubview
   \<and> infer_other_args
      \<lparr>dir_DataType = [''__class__'', ''int32'', ''double''],
       get_default_layout = (\<lambda>s. LayoutRight)\<rparr>
      [\<lparr>pname = ''i'', annotation = None\<rparr>, \<lparr>pname = ''v'', annotation = None\<rparr>] 1
      [VInt 10,
       VFunction [\<lparr>pname = ''i'', annotation = None\<rparr>, \<lparr>pname = ''v'', annotation = None\<rparr>],
       VSubview] 2 OpenMP
      \<lparr>ut_workunit = VNone, inferred_types = [], param_list = [], layout_change = [],
       types_signature = None\<rparr>
    = Inr \<lparr>ut_workunit = VNone, inferred_types = [(''v'', ''Subview'')],
           param_list = [], layout_change = [], types_signature = None\<rparr>"
  by (simp add: eval_defs)

section \<open>The call-shape resolver\<close>




section \<open>The setters of the defaults\<close>

text \<open>
  C10. \<open>set_default_precision\<close> called with a value that is not a class, such as the
  integer 5 or the member \<open>DataType.double\<close>, raises the \<open>TypeError\<close> of \<open>issubclass\<close>
  instead of printing its message and returning.
\<close>

theorem set_default_precision_raises:
  "set_default_precision (VInt 5) st = Inl TypeError_issubclass_arg_1_must_be_a_class
   \<and> set_default_precision (VDataType ''double'') st
       = Inl TypeError_issubclass_arg_1_must_be_a_class"
  by (simp add: set_default_precision_def)

text \<open>
  The other wrong arguments are handled as the messages say: \<open>set_default_space\<close> with
  anything but an \<open>ExecutionSpace\<close>, and \<open>set_default_precision\<close> with a class that does
  not derive from \<open>DataTypeClass\<close>, return and leave the default as it was.
\<close>

lemma set_default_space_wrong_type:
  assumes "\<forall>sp. v \<noteq> VSpace sp"
  shows "\<exists>st'. set_default_space v st = Inr st' \<and> get_default_space st' = get_default_space st
           \<and> EXECUTION_SPACE st' = EXECUTION_SPACE st"
  using assms by (cases v) (auto simp: set_default_space_def get_default_space_def)

lemma set_default_precision_other_class:
  "\<exists>st'. set_default_precision (VClass n False) st = Inr st'
           \<and> get_default_precision st' = get_default_precision st"
  by (simp add: set_default_precision_def get_default_precision_def)

section \<open>The result of the inference\<close>

lemma get_types_sig_None: "get_types_sig ts ls = None \<longleftrightarrow> ts = [] \<and> ls = []"
  by (auto simp: get_types_sig_def Let_def)

lemma types_signature_set_type [simp]:
  "types_signature (set_type k t ut) = types_signature ut"
  by (simp add: set_type_def)

lemma policy_arg_step_signature:
  assumes "policy_arg_step i p pp pol pt ut = Inr ut'"
  shows "types_signature ut' = types_signature ut"
proof (cases "annotation p = None")
  case True
  have "supported_policy pol" using assms True by (rule policy_arg_step_supported)
  from policy_arg_step_role[OF True this, of i pp pt ut] assms
  show ?thesis by (auto split: option.splits)
next
  case False
  then show ?thesis using assms by (simp add: policy_arg_step_def)
qed

lemma policy_loop_signature:
  "infer_policy_loop js ps pp pol pt ut = Inr ut' \<Longrightarrow> types_signature ut' = types_signature ut"
proof (induction js arbitrary: ut)
  case Nil
  then show ?case by simp
next
  case (Cons j js)
  from Cons.prems obtain u where
    "policy_arg_step j (ps ! j) pp pol pt ut = Inr u"
    "infer_policy_loop js ps pp pol pt u = Inr ut'"
    by (rule policy_loop_Cons)
  then show ?case using Cons.IH policy_arg_step_signature by metis
qed

lemma get_annotations_Inr_policy_only:
  assumes "get_annotations ext pt h args kw = Inr r"
    and "signature_parameters (workunit h) = Inr ps"
    and "length ps = policy_params_of pt (policy h)"
  obtains ut1 where
    "infer_policy_args ps (policy_params_of pt (policy h)) (policy h) pt
       \<lparr>ut_workunit = workunit h, inferred_types = [], param_list = ps,
        layout_change = [], types_signature = None\<rparr> = Inr ut1"
    "r = (if length (inferred_types ut1) = 0 then None else Some ut1)"
  using assms by (auto simp: get_annotations_def Let_def split: sum.splits if_splits)

lemma args_list_of_append:
  "args_list_of ps pp args kw = args @ keyword_values (drop pp ps) kw"
proof (cases kw)
  case Nil
  have "keyword_values qs [] = []" for qs :: "param list"
    by (induction qs) simp_all
  then show ?thesis using Nil by (simp add: args_list_of_def)
next
  case (Cons a list)
  then show ?thesis by (simp add: args_list_of_def)
qed

lemma infer_policy_args_length:
  assumes "infer_policy_args ps pp pol pt ut = Inr ut'"
  shows "pp \<le> length ps"
proof (cases pp)
  case 0
  then show ?thesis by simp
next
  case (Suc k)
  have "\<forall>m\<in>set [0..<pp]. m < length ps"
    using assms unfolding infer_policy_args_def by (rule policy_loop_bounds)
  then have "k < length ps" using Suc by simp
  then show ?thesis using Suc by simp
qed

text \<open>
  C2, as the code has it. When \<open>get_annotations\<close> returns and some parameter is a value
  parameter (the number of parameters is not the number of policy parameters), the
  result is \<open>None\<close> exactly when the inferred type map and the inferred layout map are
  both empty, and otherwise it carries the two maps and a signature that is a string, the
  one \<open>get_types_sig\<close> computes from them. When every parameter is a policy parameter,
  no layout is inferred, and the result is \<open>None\<close> exactly when no type was inferred.
\<close>

theorem signature_presence:
  assumes "get_annotations ext pt h args kw = Inr r"
    and "signature_parameters (workunit h) = Inr ps"
    and "pp = policy_params_of pt (policy h)"
    and "ut0 = \<lparr>ut_workunit = workunit h, inferred_types = [], param_list = ps,
                layout_change = [], types_signature = None\<rparr>"
  shows
    "(length ps \<noteq> pp \<longrightarrow>
        (\<exists>ut1 space ut2.
           infer_policy_args ps pp (policy h) pt ut0 = Inr ut1
           \<and> policy_space (policy h) = Inr space
           \<and> infer_other_args ext ps pp (args_list_of ps pp args kw) (value_idx_of h) space ut1
                = Inr ut2
           \<and> (inferred_types ut2 = [] \<and> layout_change ut2 = [] \<longrightarrow> r = None)
           \<and> (\<not> (inferred_types ut2 = [] \<and> layout_change ut2 = []) \<longrightarrow>
                (\<exists>u s. r = Some u \<and> inferred_types u = inferred_types ut2
                   \<and> layout_change u = layout_change ut2 \<and> types_signature u = Some s
                   \<and> get_types_sig (inferred_types ut2) (layout_change ut2) = Some s))))
     \<and> (length ps = pp \<longrightarrow>
        (\<exists>ut1.
           infer_policy_args ps pp (policy h) pt ut0 = Inr ut1
           \<and> layout_change ut1 = []
           \<and> (inferred_types ut1 = [] \<longrightarrow> r = None)
           \<and> (inferred_types ut1 \<noteq> [] \<longrightarrow> r = Some ut1)))"
proof (intro conjI impI)
  assume ne: "length ps \<noteq> pp"
  from assms(1,2) ne[unfolded assms(3)] obtain ut1 space ut2 where
    a: "infer_policy_args ps (policy_params_of pt (policy h)) (policy h) pt
       \<lparr>ut_workunit = workunit h, inferred_types = [], param_list = ps,
        layout_change = [], types_signature = None\<rparr> = Inr ut1"
    and b: "policy_space (policy h) = Inr space"
    and c: "infer_other_args ext ps (policy_params_of pt (policy h))
       (args_list_of ps (policy_params_of pt (policy h)) args kw) (value_idx_of h) space ut1
       = Inr ut2"
    and d: "r = (if length (inferred_types ut2) = 0 \<and> length (layout_change ut2) = 0 then None
          else Some (ut2\<lparr>types_signature :=
                           get_types_sig (inferred_types ut2) (layout_change ut2)\<rparr>))"
    by (rule get_annotations_Inr_other)
  have e: "\<not> (inferred_types ut2 = [] \<and> layout_change ut2 = []) \<Longrightarrow>
             \<exists>s. get_types_sig (inferred_types ut2) (layout_change ut2) = Some s"
    using get_types_sig_None[of "inferred_types ut2" "layout_change ut2"] by auto
  show "\<exists>ut1 space ut2.
           infer_policy_args ps pp (policy h) pt ut0 = Inr ut1
           \<and> policy_space (policy h) = Inr space
           \<and> infer_other_args ext ps pp (args_list_of ps pp args kw) (value_idx_of h) space ut1
                = Inr ut2
           \<and> (inferred_types ut2 = [] \<and> layout_change ut2 = [] \<longrightarrow> r = None)
           \<and> (\<not> (inferred_types ut2 = [] \<and> layout_change ut2 = []) \<longrightarrow>
                (\<exists>u s. r = Some u \<and> inferred_types u = inferred_types ut2
                   \<and> layout_change u = layout_change ut2 \<and> types_signature u = Some s
                   \<and> get_types_sig (inferred_types ut2) (layout_change ut2) = Some s))"
  proof -
    have f1: "infer_policy_args ps pp (policy h) pt ut0 = Inr ut1" using a assms(3,4) by simp
    have f3: "infer_other_args ext ps pp (args_list_of ps pp args kw) (value_idx_of h) space ut1
                = Inr ut2" using c assms(3) by simp
    have f4: "inferred_types ut2 = [] \<and> layout_change ut2 = [] \<longrightarrow> r = None"
      using d by simp
    have f5: "\<not> (inferred_types ut2 = [] \<and> layout_change ut2 = []) \<longrightarrow>
              (\<exists>u s. r = Some u \<and> inferred_types u = inferred_types ut2
                   \<and> layout_change u = layout_change ut2 \<and> types_signature u = Some s
                   \<and> get_types_sig (inferred_types ut2) (layout_change ut2) = Some s)"
    proof
      assume n: "\<not> (inferred_types ut2 = [] \<and> layout_change ut2 = [])"
      from e[OF n] obtain s where
        s: "get_types_sig (inferred_types ut2) (layout_change ut2) = Some s" by blast
      have "r = Some (ut2\<lparr>types_signature := Some s\<rparr>)" using d n s by auto
      then show "\<exists>u s. r = Some u \<and> inferred_types u = inferred_types ut2
                   \<and> layout_change u = layout_change ut2 \<and> types_signature u = Some s
                   \<and> get_types_sig (inferred_types ut2) (layout_change ut2) = Some s"
        using s by auto
    qed
    from f1 b f3 f4 f5 show ?thesis by blast
  qed
next
  assume eq: "length ps = pp"
  from assms(1,2) eq[unfolded assms(3)] obtain ut1 where
    a: "infer_policy_args ps (policy_params_of pt (policy h)) (policy h) pt
       \<lparr>ut_workunit = workunit h, inferred_types = [], param_list = ps,
        layout_change = [], types_signature = None\<rparr> = Inr ut1"
    and d: "r = (if length (inferred_types ut1) = 0 then None else Some ut1)"
    by (rule get_annotations_Inr_policy_only)
  have l: "layout_change ut1 = []"
    using policy_loop_layout[OF a[unfolded infer_policy_args_def]] by simp
  show "\<exists>ut1.
           infer_policy_args ps pp (policy h) pt ut0 = Inr ut1
           \<and> layout_change ut1 = []
           \<and> (inferred_types ut1 = [] \<longrightarrow> r = None)
           \<and> (inferred_types ut1 \<noteq> [] \<longrightarrow> r = Some ut1)"
    using a d l assms(3,4) by auto
qed


text \<open>
  The claim as stated fails for \<open>parallel_for(10, workunit)\<close> with a workunit of the one
  parameter \<open>i\<close> without declared type: \<open>i\<close> is inferred \<open>int\<close>, and the result is
  returned with the signature \<open>None\<close>, since lines 130 to 132 return before
  \<open>get_types_sig\<close> is called.
\<close>

theorem signature_presence_counterexample:
  "handle_args
     \<lparr>EXECUTION_SPACE = OpenMP, REAL_DTYPE = VClass ''double'' True, environ_DEBUG = None,
      printed = []\<rparr>
     True [VInt 10, VFunction [\<lparr>pname = ''i'', annotation = None\<rparr>]]
   = Inr \<lparr>name = None, policy = VPolicy (RangePolicy OpenMP 0 10),
          workunit = VFunction [\<lparr>pname = ''i'', annotation = None\<rparr>], view = None,
          initial_value = VInt 0\<rparr>
   \<and> get_annotations
     \<lparr>dir_DataType = [''__class__'', ''int32'', ''double''],
      get_default_layout = (\<lambda>s. LayoutRight)\<rparr>
     ''parallel_for''
     \<lparr>name = None, policy = VPolicy (RangePolicy OpenMP 0 10),
      workunit = VFunction [\<lparr>pname = ''i'', annotation = None\<rparr>], view = None,
      initial_value = VInt 0\<rparr>
     [VInt 10, VFunction [\<lparr>pname = ''i'', annotation = None\<rparr>]] []
   = Inr (Some \<lparr>ut_workunit = VFunction [\<lparr>pname = ''i'', annotation = None\<rparr>],
                inferred_types = [(''i'', ''int'')],
                param_list = [\<lparr>pname = ''i'', annotation = None\<rparr>],
                layout_change = [], types_signature = None\<rparr>)"
  by (simp add: handle_args_def int_policy_def get_default_space_def eval_defs)

theorem signature_presence_witness:
  "get_annotations
     \<lparr>dir_DataType = [''__class__'', ''int32'', ''double''],
      get_default_layout = (\<lambda>s. LayoutRight)\<rparr>
     ''parallel_for''
     \<lparr>name = None, policy = VPolicy (RangePolicy OpenMP 0 10),
      workunit = VFunction
        [\<lparr>pname = ''i'', annotation = None\<rparr>, \<lparr>pname = ''x'', annotation = None\<rparr>],
      view = None, initial_value = VInt 0\<rparr>
     [VInt 10,
      VFunction [\<lparr>pname = ''i'', annotation = None\<rparr>, \<lparr>pname = ''x'', annotation = None\<rparr>],
      VInt 7] []
   = Inr (Some \<lparr>ut_workunit = VFunction
                  [\<lparr>pname = ''i'', annotation = None\<rparr>, \<lparr>pname = ''x'', annotation = None\<rparr>],
                inferred_types = [(''i'', ''int''), (''x'', ''int'')],
                param_list =
                  [\<lparr>pname = ''i'', annotation = None\<rparr>, \<lparr>pname = ''x'', annotation = None\<rparr>],
                layout_change = [], types_signature = Some ''ii''\<rparr>)
   \<and> get_annotations
     \<lparr>dir_DataType = [''__class__'', ''int32'', ''double''],
      get_default_layout = (\<lambda>s. LayoutRight)\<rparr>
     ''parallel_for''
     \<lparr>name = None, policy = VPolicy (RangePolicy OpenMP 0 10),
      workunit = VFunction [\<lparr>pname = ''i'', annotation = Some ''int''\<rparr>], view = None,
      initial_value = VInt 0\<rparr>
     [VInt 10, VFunction [\<lparr>pname = ''i'', annotation = Some ''int''\<rparr>]] []
   = Inr None"
proof -
  let ?ext = "\<lparr>dir_DataType = [''__class__'', ''int32'', ''double''],
      get_default_layout = (\<lambda>s. LayoutRight)\<rparr>"
  let ?ps = "[\<lparr>pname = ''i'', annotation = None\<rparr>, \<lparr>pname = ''x'', annotation = None\<rparr>]"
  let ?qs = "[\<lparr>pname = ''i'', annotation = Some ''int''\<rparr>]"
  let ?h = "\<lparr>name = None, policy = VPolicy (RangePolicy OpenMP 0 10),
      workunit = VFunction ?ps, view = None, initial_value = VInt 0\<rparr>"
  let ?g = "\<lparr>name = None, policy = VPolicy (RangePolicy OpenMP 0 10),
      workunit = VFunction ?qs, view = None, initial_value = VInt 0\<rparr>"
  let ?r = "Some \<lparr>ut_workunit = VFunction ?ps,
                inferred_types = [(''i'', ''int''), (''x'', ''int'')],
                param_list = ?ps, layout_change = [], types_signature = Some ''ii''\<rparr>"
  have r1: "get_annotations ?ext ''parallel_for'' ?h [VInt 10, VFunction ?ps, VInt 7] [] = Inr ?r"
    by (simp add: eval_defs get_types_sig_def compacting_def)
  have r2: "get_annotations ?ext ''parallel_for'' ?g [VInt 10, VFunction ?qs] [] = Inr None"
    by (simp add: eval_defs)
  have s1: "signature_parameters (workunit ?h) = Inr ?ps"
    and s2: "signature_parameters (workunit ?g) = Inr ?qs" by simp_all
  from signature_presence[OF r1 s1 refl refl] signature_presence[OF r2 s2 refl refl] r1 r2
  show ?thesis by simp
qed

lemma call_bit_length_error:
  "call_bit_length v = Inl e \<Longrightarrow> e = AttributeError ''bit_length''"
  by (cases v) auto

lemma value_type_error:
  assumes "value_type ext p v = Inl e"
  shows "e \<noteq> AssertionError_unannotated_arguments_mismatch a b"
proof
  assume "e = AssertionError_unannotated_arguments_mismatch a b"
  with assms have "value_type ext p v = Inl (AssertionError_unannotated_arguments_mismatch a b)"
    by simp
  then show False
    unfolding value_type_def Let_def
    by (auto split: sum.splits if_splits pyval.splits dest: call_bit_length_error)
qed

lemma other_arg_step_no_assertion:
  "other_arg_step ext space p v ut \<noteq> Inl (AssertionError_unannotated_arguments_mismatch a b)"
  using value_type_error[of ext p v]
  by (auto simp: other_arg_step_def Let_def split: sum.splits option.splits)

lemma other_loop_no_assertion:
  "infer_other_loop ext js ps pp args start space ut
     \<noteq> Inl (AssertionError_unannotated_arguments_mismatch a b)"
proof (induction js arbitrary: ut)
  case Nil
  then show ?case by simp
next
  case (Cons j js)
  then show ?case
    using other_arg_step_no_assertion[of ext space "ps ! j" "args ! (start + j - pp)" ut a b]
    by (auto split: sum.splits)
qed

lemma policy_space_error: "policy_space v = Inl e \<Longrightarrow> e = AttributeError ''space''"
  by (cases v rule: policy_space.cases) auto

text \<open>
  C8, as the code has it. When \<open>get_annotations\<close> reaches the value parameters (the
  policy inference has returned and some parameter is a value parameter), it raises the
  error of mismatched arguments exactly when the number of value parameters, with or
  without declared type, differs from the number of extra arguments: the arguments
  followed by the keyword values of the value parameters, less 3 when there is a label
  and less 2 otherwise.
\<close>

theorem arguments_mismatch:
  assumes "signature_parameters (workunit h) = Inr ps"
    and "pp = policy_params_of pt (policy h)"
    and "infer_policy_args ps pp (policy h) pt
           \<lparr>ut_workunit = workunit h, inferred_types = [], param_list = ps,
            layout_change = [], types_signature = None\<rparr> = Inr ut1"
    and "length ps \<noteq> pp"
    and "extras = int (length (args @ keyword_values (drop pp ps) kw))
                    - (if name h \<noteq> None then 3 else 2)"
  shows
    "(int (length (drop pp ps)) \<noteq> extras \<longrightarrow>
        get_annotations ext pt h args kw
          = Inl (AssertionError_unannotated_arguments_mismatch (int (length (drop pp ps))) extras))
     \<and> (int (length (drop pp ps)) = extras \<longrightarrow>
        (\<forall>a b. get_annotations ext pt h args kw
                 \<noteq> Inl (AssertionError_unannotated_arguments_mismatch a b)))"
proof -
  have le: "pp \<le> length ps" using assms(3) by (rule infer_policy_args_length)
  then have n: "int (length (drop pp ps)) = int (length ps) - int pp" by simp
  have x: "extras = int (length (args_list_of ps pp args kw)) - int (value_idx_of h)"
    using assms(5) by (simp add: args_list_of_append value_idx_of_def)
  have ga: "get_annotations ext pt h args kw =
      (if int (length ps) - int pp \<noteq> extras
       then Inl (AssertionError_unannotated_arguments_mismatch (int (length ps) - int pp) extras)
       else case policy_space (policy h) of
              Inl e \<Rightarrow> Inl e
            | Inr space \<Rightarrow>
                (case infer_other_args ext ps pp (args_list_of ps pp args kw) (value_idx_of h)
                        space ut1 of
                   Inl e \<Rightarrow> Inl e
                 | Inr u \<Rightarrow>
                     if length (inferred_types u) = 0 \<and> length (layout_change u) = 0
                     then Inr None
                     else Inr (Some (u\<lparr>types_signature :=
                            get_types_sig (inferred_types u) (layout_change u)\<rparr>))))"
    using assms(1,3,4) unfolding x assms(2) by (simp add: get_annotations_def Let_def)
  show ?thesis
  proof (intro conjI impI allI)
    assume "int (length (drop pp ps)) \<noteq> extras"
    then show "get_annotations ext pt h args kw
          = Inl (AssertionError_unannotated_arguments_mismatch (int (length (drop pp ps))) extras)"
      unfolding ga n by simp
  next
    fix a b
    assume "int (length (drop pp ps)) = extras"
    then show "get_annotations ext pt h args kw
                 \<noteq> Inl (AssertionError_unannotated_arguments_mismatch a b)"
      unfolding ga n
      using other_loop_no_assertion[of ext "[pp..<length ps]" ps pp
              "args_list_of ps pp args kw" "value_idx_of h" _ ut1 a b]
      by (auto simp: infer_other_args_def split: sum.splits dest: policy_space_error)
  qed
qed


text \<open>
  The claim as stated counts only the value parameters without declared type. For a
  workunit of the parameters \<open>i\<close> and \<open>x: int\<close> under a flat range, no value parameter
  lacks a declared type: with one extra argument the counts differ and no error is
  raised; with no extra argument the counts agree and the error is raised.
\<close>

theorem arguments_mismatch_counterexample:
  "policy_params_of ''parallel_for'' (VPolicy (RangePolicy OpenMP 0 10)) = 1
   \<and> length (filter (\<lambda>p. annotation p = None)
        (drop 1 [\<lparr>pname = ''i'', annotation = None\<rparr>,
                 \<lparr>pname = ''x'', annotation = Some ''int''\<rparr>])) = 0
   \<and> int (length ([VInt 10,
          VFunction [\<lparr>pname = ''i'', annotation = None\<rparr>,
                     \<lparr>pname = ''x'', annotation = Some ''int''\<rparr>],
          VInt 5])) - 2 = 1
   \<and> get_annotations
     \<lparr>dir_DataType = [''__class__'', ''int32'', ''double''],
      get_default_layout = (\<lambda>s. LayoutRight)\<rparr>
     ''parallel_for''
     \<lparr>name = None, policy = VPolicy (RangePolicy OpenMP 0 10),
      workunit = VFunction
        [\<lparr>pname = ''i'', annotation = None\<rparr>, \<lparr>pname = ''x'', annotation = Some ''int''\<rparr>],
      view = None, initial_value = VInt 5\<rparr>
     [VInt 10,
      VFunction [\<lparr>pname = ''i'', annotation = None\<rparr>,
                 \<lparr>pname = ''x'', annotation = Some ''int''\<rparr>],
      VInt 5] []
   = Inr (Some \<lparr>ut_workunit = VFunction
                  [\<lparr>pname = ''i'', annotation = None\<rparr>,
                   \<lparr>pname = ''x'', annotation = Some ''int''\<rparr>],
                inferred_types = [(''i'', ''int'')],
                param_list =
                  [\<lparr>pname = ''i'', annotation = None\<rparr>,
                   \<lparr>pname = ''x'', annotation = Some ''int''\<rparr>],
                layout_change = [], types_signature = Some ''i''\<rparr>)
   \<and> int (length ([VInt 10,
          VFunction [\<lparr>pname = ''i'', annotation = None\<rparr>,
                     \<lparr>pname = ''x'', annotation = Some ''int''\<rparr>]])) - 2 = 0
   \<and> get_annotations
     \<lparr>dir_DataType = [''__class__'', ''int32'', ''double''],
      get_default_layout = (\<lambda>s. LayoutRight)\<rparr>
     ''parallel_for''
     \<lparr>name = None, policy = VPolicy (RangePolicy OpenMP 0 10),
      workunit = VFunction
        [\<lparr>pname = ''i'', annotation = None\<rparr>, \<lparr>pname = ''x'', annotation = Some ''int''\<rparr>],
      view = None, initial_value = VInt 0\<rparr>
     [VInt 10,
      VFunction [\<lparr>pname = ''i'', annotation = None\<rparr>,
                 \<lparr>pname = ''x'', annotation = Some ''int''\<rparr>]] []
   = Inl (AssertionError_unannotated_arguments_mismatch 1 0)"
  by (simp add: eval_defs get_types_sig_def compacting_def)

theorem arguments_mismatch_witness:
  "get_annotations
     \<lparr>dir_DataType = [''__class__'', ''int32'', ''double''],
      get_default_layout = (\<lambda>s. LayoutRight)\<rparr>
     ''parallel_for''
     \<lparr>name = Some (VStr ''lbl''), policy = VPolicy (RangePolicy OpenMP 0 10),
      workunit = VFunction
        [\<lparr>pname = ''i'', annotation = None\<rparr>, \<lparr>pname = ''x'', annotation = None\<rparr>],
      view = None, initial_value = VInt 0\<rparr>
     [VStr ''lbl'', VInt 10,
      VFunction [\<lparr>pname = ''i'', annotation = None\<rparr>, \<lparr>pname = ''x'', annotation = None\<rparr>]]
     []
   = Inl (AssertionError_unannotated_arguments_mismatch 1 0)
   \<and> get_annotations
     \<lparr>dir_DataType = [''__class__'', ''int32'', ''double''],
      get_default_layout = (\<lambda>s. LayoutRight)\<rparr>
     ''parallel_for''
     \<lparr>name = Some (VStr ''lbl''), policy = VPolicy (RangePolicy OpenMP 0 10),
      workunit = VFunction
        [\<lparr>pname = ''i'', annotation = None\<rparr>, \<lparr>pname = ''x'', annotation = None\<rparr>],
      view = None, initial_value = VInt 0\<rparr>
     [VStr ''lbl'', VInt 10,
      VFunction [\<lparr>pname = ''i'', annotation = None\<rparr>, \<lparr>pname = ''x'', annotation = None\<rparr>]]
     [(''x'', VInt 7)]
   \<noteq> Inl (AssertionError_unannotated_arguments_mismatch 1 0)"
proof -
  let ?ext = "\<lparr>dir_DataType = [''__class__'', ''int32'', ''double''],
      get_default_layout = (\<lambda>s. LayoutRight)\<rparr>"
  let ?ps = "[\<lparr>pname = ''i'', annotation = None\<rparr>, \<lparr>pname = ''x'', annotation = None\<rparr>]"
  let ?h = "\<lparr>name = Some (VStr ''lbl''), policy = VPolicy (RangePolicy OpenMP 0 10),
      workunit = VFunction ?ps, view = None, initial_value = VInt 0\<rparr>"
  let ?args = "[VStr ''lbl'', VInt 10, VFunction ?ps]"
  let ?ut1 = "\<lparr>ut_workunit = VFunction ?ps, inferred_types = [(''i'', ''int'')],
      param_list = ?ps, layout_change = [], types_signature = None\<rparr>"
  have s: "signature_parameters (workunit ?h) = Inr ?ps" by simp
  have p: "(1::nat) = policy_params_of ''parallel_for'' (policy ?h)"
    by (simp add: policy_params_of_def)
  have i: "infer_policy_args ?ps 1 (policy ?h) ''parallel_for''
             \<lparr>ut_workunit = workunit ?h, inferred_types = [], param_list = ?ps,
              layout_change = [], types_signature = None\<rparr> = Inr ?ut1"
    by (simp add: eval_defs)
  have n: "length ?ps \<noteq> 1" by simp
  have x0: "(0::int) = int (length (?args @ keyword_values (drop 1 ?ps) []))
                    - (if name ?h \<noteq> None then 3 else 2)"
    and x1: "(1::int) = int (length (?args @ keyword_values (drop 1 ?ps) [(''x'', VInt 7)]))
                    - (if name ?h \<noteq> None then 3 else 2)"
    by simp_all
  from arguments_mismatch[OF s p i n x0, of ?ext]
       arguments_mismatch[OF s p i n x1, of ?ext]
  show ?thesis by simp
qed

section \<open>Layouts that the signature does not show\<close>

lemma spec_entries_layouts:
  assumes "\<forall>e\<in>set ts. str_contains ''View'' (snd e) \<longrightarrow> map_of l1 (fst e) = map_of l2 (fst e)"
  shows "map (spec_entry l1) ts = map (spec_entry l2) ts"
proof (rule map_cong[OF refl])
  fix e assume "e \<in> set ts"
  with assms have "str_contains ''View'' (snd e) \<longrightarrow> map_of l1 (fst e) = map_of l2 (fst e)"
    by blast
  then show "spec_entry l1 e = spec_entry l2 e"
    by (cases e) (simp add: spec_entry_def)
qed

lemma get_types_sig_layouts:
  assumes "e \<in> set ts" "snd e \<noteq> []"
    and "\<forall>e\<in>set ts. str_contains ''View'' (snd e) \<longrightarrow> map_of l1 (fst e) = map_of l2 (fst e)"
  shows "get_types_sig ts l1 = get_types_sig ts l2"
proof -
  have m: "map (spec_entry l1) ts = map (spec_entry l2) ts"
    using assms(3) by (rule spec_entries_layouts)
  have "spec_signature ts l1 = spec_signature ts l2"
    unfolding spec_signature_def m by (rule refl)
  then show ?thesis
    using get_types_sig_spec[OF assms(1,2), of l1] get_types_sig_spec[OF assms(1,2), of l2]
    by simp
qed

lemma other_arg_step_changed:
  assumes "other_arg_step ext space p v ut = Inr u"
    and "inferred_types vt = inferred_types ut"
    and "annotation p = None \<longrightarrow> v' = v"
  shows "\<exists>w. other_arg_step ext space p v' vt = Inr w \<and> inferred_types w = inferred_types u"
proof (cases "annotation p = None")
  case True
  then have "v' = v" using assms(3) by simp
  then show ?thesis
    using assms(1,2) True
    by (auto simp: other_arg_step_def Let_def set_type_def set_layout_def
             split: option.splits sum.splits)
next
  case False
  then show ?thesis
    using assms(1,2)
    by (auto simp: other_arg_step_def Let_def set_layout_def split: option.splits)
qed

lemma other_arg_step_layout_same:
  assumes "other_arg_step ext space p v ut = Inr u" "other_arg_step ext space p v vt = Inr w"
    and "map_of (layout_change vt) n = map_of (layout_change ut) n"
  shows "map_of (layout_change w) n = map_of (layout_change u) n"
  using other_arg_step_layout[OF assms(1)] other_arg_step_layout[OF assms(2)] assms(3)
  by (auto split: option.splits)

lemma other_loop_changed:
  assumes "infer_other_loop ext js ps pp args start space ut = Inr ut2"
    and "k < length args"
    and "\<forall>j\<in>set js. start + j - pp = k \<longrightarrow> annotation (ps ! j) \<noteq> None \<and> pname (ps ! j) = nm"
    and "inferred_types vt = inferred_types ut"
    and "\<forall>n. n \<noteq> nm \<longrightarrow> map_of (layout_change vt) n = map_of (layout_change ut) n"
  shows "\<exists>vt2. infer_other_loop ext js ps pp (args[k := x]) start space vt = Inr vt2
            \<and> inferred_types vt2 = inferred_types ut2
            \<and> (\<forall>n. n \<noteq> nm \<longrightarrow> map_of (layout_change vt2) n = map_of (layout_change ut2) n)"
  using assms(1,3,4,5)
proof (induction js arbitrary: ut vt)
  case Nil
  then show ?case by simp
next
  case (Cons j js)
  from Cons.prems(1) obtain u where
    len: "j < length ps" "start + j - pp < length args" and
    st: "other_arg_step ext space (ps ! j) (args ! (start + j - pp)) ut = Inr u" and
    lp: "infer_other_loop ext js ps pp args start space u = Inr ut2"
    by (rule other_loop_Cons)
  let ?v = "args ! (start + j - pp)"
  let ?v' = "args[k := x] ! (start + j - pp)"
  have same: "annotation (ps ! j) = None \<longrightarrow> ?v' = ?v"
    using Cons.prems(2) by (auto simp: nth_list_update)
  from other_arg_step_changed[OF st Cons.prems(3) same] obtain w where
    w: "other_arg_step ext space (ps ! j) ?v' vt = Inr w"
    and wt: "inferred_types w = inferred_types u" by blast
  have wl: "\<forall>n. n \<noteq> nm \<longrightarrow> map_of (layout_change w) n = map_of (layout_change u) n"
  proof (intro allI impI)
    fix n assume n: "n \<noteq> nm"
    show "map_of (layout_change w) n = map_of (layout_change u) n"
    proof (cases "start + j - pp = k")
      case True
      then have "pname (ps ! j) = nm" using Cons.prems(2) by simp
      then have "n \<noteq> pname (ps ! j)" using n by simp
      then show ?thesis
        using other_arg_step_layout_frame[OF st] other_arg_step_layout_frame[OF w]
          Cons.prems(4) n by simp
    next
      case False
      then have "?v' = ?v" by (simp add: nth_list_update)
      then show ?thesis
        using other_arg_step_layout_same[OF st _, of vt w n] w Cons.prems(4) n by simp
    qed
  qed
  have rest: "\<forall>j\<in>set js. start + j - pp = k \<longrightarrow>
                annotation (ps ! j) \<noteq> None \<and> pname (ps ! j) = nm"
    using Cons.prems(2) by simp
  from Cons.IH[OF lp rest wt wl] obtain vt2 where
    "infer_other_loop ext js ps pp (args[k := x]) start space w = Inr vt2"
    "inferred_types vt2 = inferred_types ut2"
    "\<forall>n. n \<noteq> nm \<longrightarrow> map_of (layout_change vt2) n = map_of (layout_change ut2) n"
    by blast
  then show ?case using len w by simp
qed


lemma declared_name_not_inferred:
  assumes "infer_policy_args ps pp pol pt ut0 = Inr ut1"
    and "infer_other_args ext ps pp args start space ut1 = Inr ut2"
    and "distinct (map pname ps)" "pp \<le> i" "i < length ps" "annotation (ps ! i) \<noteq> None"
  shows "map_of (inferred_types ut2) (pname (ps ! i)) = map_of (inferred_types ut0) (pname (ps ! i))"
proof -
  have le: "pp \<le> length ps" using assms(1) by (rule infer_policy_args_length)
  have a: "\<forall>j\<in>set [0..<pp]. pname (ps ! j) \<noteq> pname (ps ! i)"
  proof
    fix j assume "j \<in> set [0..<pp]"
    then have "j < length ps" "j \<noteq> i" using le assms(4) by auto
    then show "pname (ps ! j) \<noteq> pname (ps ! i)"
      using distinct_names_nth[OF assms(3) _ assms(5)] by blast
  qed
  have b: "\<forall>j\<in>set [pp..<length ps]. annotation (ps ! j) = None \<longrightarrow>
              pname (ps ! j) \<noteq> pname (ps ! i)"
  proof (intro ballI impI)
    fix j assume "j \<in> set [pp..<length ps]" "annotation (ps ! j) = None"
    then have "j < length ps" "j \<noteq> i" using assms(6) by auto
    then show "pname (ps ! j) \<noteq> pname (ps ! i)"
      using distinct_names_nth[OF assms(3) _ assms(5)] by blast
  qed
  show ?thesis
    using policy_loop_frame[OF assms(1)[unfolded infer_policy_args_def] a]
      other_loop_types_frame[OF assms(2)[unfolded infer_other_args_def] b]
    by simp
qed

lemma get_annotations_changed_layout:
  assumes sp: "signature_parameters (workunit h) = Inr ps"
    and d: "distinct (map pname ps)"
    and pp: "pp = policy_params_of pt (policy h)"
    and i: "pp \<le> i" "i < length ps" "annotation (ps ! i) \<noteq> None"
    and k: "k = value_idx_of h + i - pp" "k < length args" "args ! k = VView lay shp dt"
    and run: "get_annotations ext pt h args kw = Inr (Some u)"
    and ne: "e \<in> set (inferred_types u)" "snd e \<noteq> []"
  shows "\<exists>u'. get_annotations ext pt h (args[k := VView lay' shp dt]) kw = Inr (Some u')
           \<and> inferred_types u' = inferred_types u
           \<and> types_signature u' = types_signature u
           \<and> map_of (inferred_types u) (pname (ps ! i)) = None"
proof -
  let ?ut0 = "\<lparr>ut_workunit = workunit h, inferred_types = [], param_list = ps,
        layout_change = [], types_signature = None\<rparr>"
  let ?al = "args_list_of ps pp args kw"
  let ?al' = "args_list_of ps pp (args[k := VView lay' shp dt]) kw"
  let ?x = "VView lay' shp dt"
  have nl: "length ps \<noteq> policy_params_of pt (policy h)" using i pp by auto
  from run sp nl obtain ut1 space ut2 where
    a: "infer_policy_args ps pp (policy h) pt ?ut0 = Inr ut1"
    and as: "int (length ps) - int pp = int (length ?al) - int (value_idx_of h)"
    and b: "policy_space (policy h) = Inr space"
    and c: "infer_other_args ext ps pp ?al (value_idx_of h) space ut1 = Inr ut2"
    and r: "Some u = (if length (inferred_types ut2) = 0 \<and> length (layout_change ut2) = 0
          then None
          else Some (ut2\<lparr>types_signature :=
                           get_types_sig (inferred_types ut2) (layout_change ut2)\<rparr>))"
    unfolding pp by (rule get_annotations_Inr_other)
  from r have u: "u = ut2\<lparr>types_signature :=
                           get_types_sig (inferred_types ut2) (layout_change ut2)\<rparr>"
    by (auto split: if_splits)
  have al': "?al' = ?al[k := ?x]"
    using k(2) by (simp add: args_list_of_append list_update_append1)
  have kl: "k < length ?al" using k(2) by (simp add: args_list_of_append)
  have idx: "\<forall>j\<in>set [pp..<length ps]. value_idx_of h + j - pp = k \<longrightarrow>
               annotation (ps ! j) \<noteq> None \<and> pname (ps ! j) = pname (ps ! i)"
  proof (intro ballI impI)
    fix j assume "j \<in> set [pp..<length ps]" "value_idx_of h + j - pp = k"
    then have "j = i" using k(1) i(1) by auto
    then show "annotation (ps ! j) \<noteq> None \<and> pname (ps ! j) = pname (ps ! i)"
      using i(3) by simp
  qed
  from other_loop_changed[OF c[unfolded infer_other_args_def] kl idx refl, of ?x]
  obtain vt2 where
    c': "infer_other_args ext ps pp ?al' (value_idx_of h) space ut1 = Inr vt2"
    and t: "inferred_types vt2 = inferred_types ut2"
    and l: "\<forall>n. n \<noteq> pname (ps ! i) \<longrightarrow>
              map_of (layout_change vt2) n = map_of (layout_change ut2) n"
    unfolding infer_other_args_def al' by auto
  have tne: "inferred_types ut2 \<noteq> []" using ne(1) u by auto
  have as': "int (length ps) - int pp = int (length ?al') - int (value_idx_of h)"
    using as al' by simp
  let ?u' = "vt2\<lparr>types_signature :=
                  get_types_sig (inferred_types vt2) (layout_change vt2)\<rparr>"
  have run': "get_annotations ext pt h (args[k := ?x]) kw = Inr (Some ?u')"
    using sp a b c' as' nl tne t
    unfolding pp[symmetric] get_annotations_def Let_def
    by (simp add: pp[symmetric])
  have none: "map_of (inferred_types ut2) (pname (ps ! i)) = None"
    using declared_name_not_inferred[OF a c d i] by simp
  have agree: "\<forall>e\<in>set (inferred_types ut2). str_contains ''View'' (snd e) \<longrightarrow>
      map_of (layout_change ut2) (fst e) = map_of (layout_change vt2) (fst e)"
  proof (intro ballI impI)
    fix e' assume "e' \<in> set (inferred_types ut2)"
    then have "map_of (inferred_types ut2) (fst e') \<noteq> None"
      by (metis fst_conv image_eqI map_of_eq_None_iff)
    then have "fst e' \<noteq> pname (ps ! i)" using none by auto
    then show "map_of (layout_change ut2) (fst e') = map_of (layout_change vt2) (fst e')"
      using l by simp
  qed
  have e2: "e \<in> set (inferred_types ut2)" using ne(1) u by simp
  have sig: "get_types_sig (inferred_types ut2) (layout_change ut2)
               = get_types_sig (inferred_types ut2) (layout_change vt2)"
    using e2 ne(2) agree by (rule get_types_sig_layouts)
  have "inferred_types ?u' = inferred_types u" using t u by simp
  moreover have "types_signature ?u' = types_signature u" using t u sig by simp
  moreover have "map_of (inferred_types u) (pname (ps ! i)) = None" using none u by simp
  ultimately show ?thesis using run' by blast
qed

lemma get_annotations_changed_list:
  assumes sp: "signature_parameters (workunit h) = Inr ps"
    and d: "distinct (map pname ps)"
    and pp: "pp = policy_params_of pt (policy h)"
    and i: "pp \<le> i" "i < length ps" "annotation (ps ! i) \<noteq> None"
    and k: "k = value_idx_of h + i - pp" "k < length (args_list_of ps pp args kw)"
      "args_list_of ps pp args kw ! k = VView lay shp dt"
    and al': "args_list_of ps pp args' kw' = (args_list_of ps pp args kw)[k := VView lay' shp dt]"
    and run: "get_annotations ext pt h args kw = Inr (Some u)"
    and ne: "e \<in> set (inferred_types u)" "snd e \<noteq> []"
  shows "\<exists>u'. get_annotations ext pt h args' kw' = Inr (Some u')
           \<and> inferred_types u' = inferred_types u
           \<and> types_signature u' = types_signature u
           \<and> map_of (inferred_types u) (pname (ps ! i)) = None"
proof -
  let ?ut0 = "\<lparr>ut_workunit = workunit h, inferred_types = [], param_list = ps,
        layout_change = [], types_signature = None\<rparr>"
  let ?al = "args_list_of ps pp args kw"
  let ?al' = "args_list_of ps pp args' kw'"
  let ?x = "VView lay' shp dt"
  have nl: "length ps \<noteq> policy_params_of pt (policy h)" using i pp by auto
  from run sp nl obtain ut1 space ut2 where
    a: "infer_policy_args ps pp (policy h) pt ?ut0 = Inr ut1"
    and as: "int (length ps) - int pp = int (length ?al) - int (value_idx_of h)"
    and b: "policy_space (policy h) = Inr space"
    and c: "infer_other_args ext ps pp ?al (value_idx_of h) space ut1 = Inr ut2"
    and r: "Some u = (if length (inferred_types ut2) = 0 \<and> length (layout_change ut2) = 0
          then None
          else Some (ut2\<lparr>types_signature :=
                           get_types_sig (inferred_types ut2) (layout_change ut2)\<rparr>))"
    unfolding pp by (rule get_annotations_Inr_other)
  from r have u: "u = ut2\<lparr>types_signature :=
                           get_types_sig (inferred_types ut2) (layout_change ut2)\<rparr>"
    by (auto split: if_splits)
  have kl: "k < length ?al" by (rule k(2))
  have idx: "\<forall>j\<in>set [pp..<length ps]. value_idx_of h + j - pp = k \<longrightarrow>
               annotation (ps ! j) \<noteq> None \<and> pname (ps ! j) = pname (ps ! i)"
  proof (intro ballI impI)
    fix j assume "j \<in> set [pp..<length ps]" "value_idx_of h + j - pp = k"
    then have "j = i" using k(1) i(1) by auto
    then show "annotation (ps ! j) \<noteq> None \<and> pname (ps ! j) = pname (ps ! i)"
      using i(3) by simp
  qed
  from other_loop_changed[OF c[unfolded infer_other_args_def] kl idx refl, of ?x]
  obtain vt2 where
    c': "infer_other_args ext ps pp ?al' (value_idx_of h) space ut1 = Inr vt2"
    and t: "inferred_types vt2 = inferred_types ut2"
    and l: "\<forall>n. n \<noteq> pname (ps ! i) \<longrightarrow>
              map_of (layout_change vt2) n = map_of (layout_change ut2) n"
    unfolding infer_other_args_def al' by auto
  have tne: "inferred_types ut2 \<noteq> []" using ne(1) u by auto
  have as': "int (length ps) - int pp = int (length ?al') - int (value_idx_of h)"
    using as al' by simp
  let ?u' = "vt2\<lparr>types_signature :=
                  get_types_sig (inferred_types vt2) (layout_change vt2)\<rparr>"
  have run': "get_annotations ext pt h args' kw' = Inr (Some ?u')"
    using sp a b c' as' nl tne t
    unfolding pp[symmetric] get_annotations_def Let_def
    by (simp add: pp[symmetric])
  have none: "map_of (inferred_types ut2) (pname (ps ! i)) = None"
    using declared_name_not_inferred[OF a c d i] by simp
  have agree: "\<forall>e\<in>set (inferred_types ut2). str_contains ''View'' (snd e) \<longrightarrow>
      map_of (layout_change ut2) (fst e) = map_of (layout_change vt2) (fst e)"
  proof (intro ballI impI)
    fix e' assume "e' \<in> set (inferred_types ut2)"
    then have "map_of (inferred_types ut2) (fst e') \<noteq> None"
      by (metis fst_conv image_eqI map_of_eq_None_iff)
    then have "fst e' \<noteq> pname (ps ! i)" using none by auto
    then show "map_of (layout_change ut2) (fst e') = map_of (layout_change vt2) (fst e')"
      using l by simp
  qed
  have e2: "e \<in> set (inferred_types ut2)" using ne(1) u by simp
  have sig: "get_types_sig (inferred_types ut2) (layout_change ut2)
               = get_types_sig (inferred_types ut2) (layout_change vt2)"
    using e2 ne(2) agree by (rule get_types_sig_layouts)
  have "inferred_types ?u' = inferred_types u" using t u by simp
  moreover have "types_signature ?u' = types_signature u" using t u sig by simp
  moreover have "map_of (inferred_types u) (pname (ps ! i)) = None" using none u by simp
  ultimately show ?thesis using run' by blast
qed

text \<open>
  The layouts that the signature does not show, where the code builds the signature from
  the type map. For a type map in which some descriptor is not the empty string: two
  layout maps that agree on the names whose descriptor contains \<open>View\<close> give the same
  signature; in particular a layout entry under a name that is not in the type map
  changes nothing. For a dispatch call that returns an inferred type map of this kind:
  the name of a value parameter with a declared type that is bound to a view is not in
  the type map, and the same call with another layout of that view, passed by position
  or by keyword, returns the same type map and the same signature.
\<close>

theorem signature_ignores_declared_layouts:
  "((\<exists>e\<in>set types. snd e \<noteq> [])
      \<and> (\<forall>e\<in>set types. str_contains ''View'' (snd e) \<longrightarrow>
             map_of l1 (fst e) = map_of l2 (fst e)) \<longrightarrow>
     get_types_sig types l1 = get_types_sig types l2)
   \<and> ((\<exists>e\<in>set types. snd e \<noteq> []) \<and> n \<notin> fst ` set types \<longrightarrow>
     get_types_sig types (AList.update n l layouts) = get_types_sig types layouts)
   \<and> (signature_parameters (workunit h) = Inr ps \<and> distinct (map pname ps)
       \<and> pp = policy_params_of pt (policy h)
       \<and> pp \<le> i \<and> i < length ps \<and> annotation (ps ! i) \<noteq> None
       \<and> k = value_idx_of h + i - pp \<and> k < length args \<and> args ! k = VView lay shp dt
       \<and> get_annotations ext pt h args kw = Inr (Some u)
       \<and> (\<exists>e\<in>set (inferred_types u). snd e \<noteq> []) \<longrightarrow>
     (\<exists>u'. get_annotations ext pt h (args[k := VView lay' shp dt]) kw = Inr (Some u')
           \<and> inferred_types u' = inferred_types u
           \<and> types_signature u' = types_signature u
           \<and> map_of (inferred_types u) (pname (ps ! i)) = None))
   \<and> (signature_parameters (workunit h) = Inr ps \<and> distinct (map pname ps)
       \<and> pp = policy_params_of pt (policy h)
       \<and> pp \<le> i \<and> i < length ps \<and> annotation (ps ! i) \<noteq> None
       \<and> k = value_idx_of h + i - pp
       \<and> k < length (args @ keyword_values (drop pp ps) kw)
       \<and> (args @ keyword_values (drop pp ps) kw) ! k = VView lay shp dt
       \<and> args' @ keyword_values (drop pp ps) kw'
            = (args @ keyword_values (drop pp ps) kw)[k := VView lay' shp dt]
       \<and> get_annotations ext pt h args kw = Inr (Some u)
       \<and> (\<exists>e\<in>set (inferred_types u). snd e \<noteq> []) \<longrightarrow>
     (\<exists>u'. get_annotations ext pt h args' kw' = Inr (Some u')
           \<and> inferred_types u' = inferred_types u
           \<and> types_signature u' = types_signature u
           \<and> map_of (inferred_types u) (pname (ps ! i)) = None))"
proof (intro conjI impI)
  assume a: "(\<exists>e\<in>set types. snd e \<noteq> [])
      \<and> (\<forall>e\<in>set types. str_contains ''View'' (snd e) \<longrightarrow>
             map_of l1 (fst e) = map_of l2 (fst e))"
  then obtain e where "e \<in> set types" "snd e \<noteq> []" by blast
  then show "get_types_sig types l1 = get_types_sig types l2"
    using a by (intro get_types_sig_layouts) auto
next
  assume a: "(\<exists>e\<in>set types. snd e \<noteq> []) \<and> n \<notin> fst ` set types"
  then obtain e where e: "e \<in> set types" "snd e \<noteq> []" by blast
  have "\<forall>e\<in>set types. str_contains ''View'' (snd e) \<longrightarrow>
          map_of (AList.update n l layouts) (fst e) = map_of layouts (fst e)"
    using a by (auto simp: update_conv')
  with e show "get_types_sig types (AList.update n l layouts) = get_types_sig types layouts"
    by (rule get_types_sig_layouts)
next
  assume a: "signature_parameters (workunit h) = Inr ps \<and> distinct (map pname ps)
       \<and> pp = policy_params_of pt (policy h)
       \<and> pp \<le> i \<and> i < length ps \<and> annotation (ps ! i) \<noteq> None
       \<and> k = value_idx_of h + i - pp \<and> k < length args \<and> args ! k = VView lay shp dt
       \<and> get_annotations ext pt h args kw = Inr (Some u)
       \<and> (\<exists>e\<in>set (inferred_types u). snd e \<noteq> [])"
  then obtain e where e: "e \<in> set (inferred_types u)" "snd e \<noteq> []" by blast
  from a have
    "signature_parameters (workunit h) = Inr ps" "distinct (map pname ps)"
    "pp = policy_params_of pt (policy h)" "pp \<le> i" "i < length ps"
    "annotation (ps ! i) \<noteq> None" "k = value_idx_of h + i - pp" "k < length args"
    "args ! k = VView lay shp dt" "get_annotations ext pt h args kw = Inr (Some u)"
    by blast+
  then show "\<exists>u'. get_annotations ext pt h (args[k := VView lay' shp dt]) kw = Inr (Some u')
           \<and> inferred_types u' = inferred_types u
           \<and> types_signature u' = types_signature u
           \<and> map_of (inferred_types u) (pname (ps ! i)) = None"
    using e by (rule get_annotations_changed_layout)
next
  assume a: "signature_parameters (workunit h) = Inr ps \<and> distinct (map pname ps)
       \<and> pp = policy_params_of pt (policy h)
       \<and> pp \<le> i \<and> i < length ps \<and> annotation (ps ! i) \<noteq> None
       \<and> k = value_idx_of h + i - pp
       \<and> k < length (args @ keyword_values (drop pp ps) kw)
       \<and> (args @ keyword_values (drop pp ps) kw) ! k = VView lay shp dt
       \<and> args' @ keyword_values (drop pp ps) kw'
            = (args @ keyword_values (drop pp ps) kw)[k := VView lay' shp dt]
       \<and> get_annotations ext pt h args kw = Inr (Some u)
       \<and> (\<exists>e\<in>set (inferred_types u). snd e \<noteq> [])"
  then obtain e where e: "e \<in> set (inferred_types u)" "snd e \<noteq> []" by blast
  from a have
    "signature_parameters (workunit h) = Inr ps" "distinct (map pname ps)"
    "pp = policy_params_of pt (policy h)" "pp \<le> i" "i < length ps"
    "annotation (ps ! i) \<noteq> None" "k = value_idx_of h + i - pp"
    "k < length (args_list_of ps pp args kw)"
    "args_list_of ps pp args kw ! k = VView lay shp dt"
    "args_list_of ps pp args' kw' = (args_list_of ps pp args kw)[k := VView lay' shp dt]"
    "get_annotations ext pt h args kw = Inr (Some u)"
    unfolding args_list_of_append by blast+
  then show "\<exists>u'. get_annotations ext pt h args' kw' = Inr (Some u')
           \<and> inferred_types u' = inferred_types u
           \<and> types_signature u' = types_signature u
           \<and> map_of (inferred_types u) (pname (ps ! i)) = None"
    using e by (rule get_annotations_changed_list)
qed

theorem signature_ignores_declared_layouts_witness:
  "get_annotations
     \<lparr>dir_DataType = [''__class__'', ''int32'', ''double''],
      get_default_layout = (\<lambda>s. LayoutRight)\<rparr>
     ''parallel_for''
     \<lparr>name = None, policy = VPolicy (RangePolicy OpenMP 0 10),
      workunit = VFunction
        [\<lparr>pname = ''i'', annotation = None\<rparr>,
         \<lparr>pname = ''w'', annotation = Some ''pk.View1D[pk.double]''\<rparr>],
      view = None, initial_value = VInt 0\<rparr>
     [VInt 10,
      VFunction
        [\<lparr>pname = ''i'', annotation = None\<rparr>,
         \<lparr>pname = ''w'', annotation = Some ''pk.View1D[pk.double]''\<rparr>],
      VView LayoutLeft [4] (VDataType ''double'')]
     []
   = Inr (Some \<lparr>ut_workunit = VFunction
        [\<lparr>pname = ''i'', annotation = None\<rparr>,
         \<lparr>pname = ''w'', annotation = Some ''pk.View1D[pk.double]''\<rparr>],
      inferred_types = [(''i'', ''int'')],
      param_list =
        [\<lparr>pname = ''i'', annotation = None\<rparr>,
         \<lparr>pname = ''w'', annotation = Some ''pk.View1D[pk.double]''\<rparr>],
      layout_change = [(''w'', ''LayoutLeft'')], types_signature = Some ''i''\<rparr>)
   \<and> get_annotations
     \<lparr>dir_DataType = [''__class__'', ''int32'', ''double''],
      get_default_layout = (\<lambda>s. LayoutRight)\<rparr>
     ''parallel_for''
     \<lparr>name = None, policy = VPolicy (RangePolicy OpenMP 0 10),
      workunit = VFunction
        [\<lparr>pname = ''i'', annotation = None\<rparr>,
         \<lparr>pname = ''w'', annotation = Some ''pk.View1D[pk.double]''\<rparr>],
      view = None, initial_value = VInt 0\<rparr>
     [VInt 10,
      VFunction
        [\<lparr>pname = ''i'', annotation = None\<rparr>,
         \<lparr>pname = ''w'', annotation = Some ''pk.View1D[pk.double]''\<rparr>],
      VView LayoutRight [4] (VDataType ''double'')]
     []
   = Inr (Some \<lparr>ut_workunit = VFunction
        [\<lparr>pname = ''i'', annotation = None\<rparr>,
         \<lparr>pname = ''w'', annotation = Some ''pk.View1D[pk.double]''\<rparr>],
      inferred_types = [(''i'', ''int'')],
      param_list =
        [\<lparr>pname = ''i'', annotation = None\<rparr>,
         \<lparr>pname = ''w'', annotation = Some ''pk.View1D[pk.double]''\<rparr>],
      layout_change = [(''w'', ''LayoutRight'')], types_signature = Some ''i''\<rparr>)
   \<and> (\<exists>u'. get_annotations
     \<lparr>dir_DataType = [''__class__'', ''int32'', ''double''],
      get_default_layout = (\<lambda>s. LayoutRight)\<rparr>
     ''parallel_for''
     \<lparr>name = None, policy = VPolicy (RangePolicy OpenMP 0 10),
      workunit = VFunction
        [\<lparr>pname = ''i'', annotation = None\<rparr>,
         \<lparr>pname = ''w'', annotation = Some ''pk.View1D[pk.double]''\<rparr>],
      view = None, initial_value = VInt 0\<rparr>
     (([VInt 10,
      VFunction
        [\<lparr>pname = ''i'', annotation = None\<rparr>,
         \<lparr>pname = ''w'', annotation = Some ''pk.View1D[pk.double]''\<rparr>],
      VView LayoutLeft [4] (VDataType ''double'')])[2 := VView LayoutRight [4] (VDataType ''double'')])
     []
        = Inr (Some u') \<and> types_signature u' = Some ''i'')
   \<and> get_annotations
     \<lparr>dir_DataType = [''__class__'', ''int32'', ''double''],
      get_default_layout = (\<lambda>s. LayoutRight)\<rparr>
     ''parallel_for''
     \<lparr>name = None, policy = VPolicy (RangePolicy OpenMP 0 10),
      workunit = VFunction
        [\<lparr>pname = ''i'', annotation = None\<rparr>,
         \<lparr>pname = ''w'', annotation = Some ''pk.View1D[pk.double]''\<rparr>],
      view = None, initial_value = VInt 0\<rparr>
     [VInt 10,
      VFunction
        [\<lparr>pname = ''i'', annotation = None\<rparr>,
         \<lparr>pname = ''w'', annotation = Some ''pk.View1D[pk.double]''\<rparr>]]
     [(''w'', VView LayoutLeft [4] (VDataType ''double''))]
   = Inr (Some \<lparr>ut_workunit = VFunction
        [\<lparr>pname = ''i'', annotation = None\<rparr>,
         \<lparr>pname = ''w'', annotation = Some ''pk.View1D[pk.double]''\<rparr>],
      inferred_types = [(''i'', ''int'')],
      param_list =
        [\<lparr>pname = ''i'', annotation = None\<rparr>,
         \<lparr>pname = ''w'', annotation = Some ''pk.View1D[pk.double]''\<rparr>],
      layout_change = [(''w'', ''LayoutLeft'')], types_signature = Some ''i''\<rparr>)
   \<and> get_annotations
     \<lparr>dir_DataType = [''__class__'', ''int32'', ''double''],
      get_default_layout = (\<lambda>s. LayoutRight)\<rparr>
     ''parallel_for''
     \<lparr>name = None, policy = VPolicy (RangePolicy OpenMP 0 10),
      workunit = VFunction
        [\<lparr>pname = ''i'', annotation = None\<rparr>,
         \<lparr>pname = ''w'', annotation = Some ''pk.View1D[pk.double]''\<rparr>],
      view = None, initial_value = VInt 0\<rparr>
     [VInt 10,
      VFunction
        [\<lparr>pname = ''i'', annotation = None\<rparr>,
         \<lparr>pname = ''w'', annotation = Some ''pk.View1D[pk.double]''\<rparr>]]
     [(''w'', VView LayoutRight [4] (VDataType ''double''))]
   = Inr (Some \<lparr>ut_workunit = VFunction
        [\<lparr>pname = ''i'', annotation = None\<rparr>,
         \<lparr>pname = ''w'', annotation = Some ''pk.View1D[pk.double]''\<rparr>],
      inferred_types = [(''i'', ''int'')],
      param_list =
        [\<lparr>pname = ''i'', annotation = None\<rparr>,
         \<lparr>pname = ''w'', annotation = Some ''pk.View1D[pk.double]''\<rparr>],
      layout_change = [(''w'', ''LayoutRight'')], types_signature = Some ''i''\<rparr>)
   \<and> (\<exists>u'. get_annotations
     \<lparr>dir_DataType = [''__class__'', ''int32'', ''double''],
      get_default_layout = (\<lambda>s. LayoutRight)\<rparr>
     ''parallel_for''
     \<lparr>name = None, policy = VPolicy (RangePolicy OpenMP 0 10),
      workunit = VFunction
        [\<lparr>pname = ''i'', annotation = None\<rparr>,
         \<lparr>pname = ''w'', annotation = Some ''pk.View1D[pk.double]''\<rparr>],
      view = None, initial_value = VInt 0\<rparr>
     [VInt 10,
      VFunction
        [\<lparr>pname = ''i'', annotation = None\<rparr>,
         \<lparr>pname = ''w'', annotation = Some ''pk.View1D[pk.double]''\<rparr>]]
     [(''w'', VView LayoutRight [4] (VDataType ''double''))]
        = Inr (Some u') \<and> types_signature u' = Some ''i'')
   \<and> get_types_sig [(''v'', ''View1D:double''), (''x'', ''int'')]
        [(''v'', ''LayoutLeft''), (''w'', ''LayoutLeft'')]
     = get_types_sig [(''v'', ''View1D:double''), (''x'', ''int'')]
        [(''v'', ''LayoutLeft''), (''w'', ''LayoutRight'')]"
proof -
  let ?ext = "\<lparr>dir_DataType = [''__class__'', ''int32'', ''double''],
      get_default_layout = (\<lambda>s. LayoutRight)\<rparr>"
  let ?ps = "[\<lparr>pname = ''i'', annotation = None\<rparr>,
         \<lparr>pname = ''w'', annotation = Some ''pk.View1D[pk.double]''\<rparr>]"
  let ?h = "\<lparr>name = None, policy = VPolicy (RangePolicy OpenMP 0 10),
      workunit = VFunction ?ps, view = None, initial_value = VInt 0\<rparr>"
  let ?l = "VView LayoutLeft [4] (VDataType ''double'')"
  let ?r = "VView LayoutRight [4] (VDataType ''double'')"
  let ?args = "[VInt 10, VFunction ?ps, ?l]"
  let ?args' = "[VInt 10, VFunction ?ps, ?r]"
  let ?kargs = "[VInt 10, VFunction ?ps]"
  let ?u = "\<lparr>ut_workunit = VFunction ?ps, inferred_types = [(''i'', ''int'')],
                param_list = ?ps,
                layout_change = [(''w'', ''LayoutLeft'')], types_signature = Some ''i''\<rparr>"
  let ?u' = "\<lparr>ut_workunit = VFunction ?ps, inferred_types = [(''i'', ''int'')],
                param_list = ?ps,
                layout_change = [(''w'', ''LayoutRight'')], types_signature = Some ''i''\<rparr>"
  let ?ts = "[(''v'', ''View1D:double''), (''x'', ''int'')]"
  have r: "get_annotations ?ext ''parallel_for'' ?h ?args [] = Inr (Some ?u)"
    by (simp add: eval_defs get_types_sig_def compacting_def)
  have r': "get_annotations ?ext ''parallel_for'' ?h ?args' [] = Inr (Some ?u')"
    by (simp add: eval_defs get_types_sig_def compacting_def)
  have rk: "get_annotations ?ext ''parallel_for'' ?h ?kargs [(''w'', ?l)] = Inr (Some ?u)"
    by (simp add: eval_defs get_types_sig_def compacting_def)
  have rk': "get_annotations ?ext ''parallel_for'' ?h ?kargs [(''w'', ?r)] = Inr (Some ?u')"
    by (simp add: eval_defs get_types_sig_def compacting_def)
  note inst = signature_ignores_declared_layouts
         [where types="?ts" and ?l1.0="[(''v'', ''LayoutLeft''), (''w'', ''LayoutLeft'')]"
            and ?l2.0="[(''v'', ''LayoutLeft''), (''w'', ''LayoutRight'')]"
            and h="?h" and ps="?ps" and pp=1 and pt="''parallel_for''" and i=1 and k=2
            and lay=LayoutLeft and shp="[4]" and dt="VDataType ''double''"
            and ext="?ext" and u="?u" and lay'=LayoutRight
            and args="?args" and kw="[]"]
  note instk = signature_ignores_declared_layouts
         [where h="?h" and ps="?ps" and pp=1 and pt="''parallel_for''" and i=1 and k=2
            and lay=LayoutLeft and shp="[4]" and dt="VDataType ''double''"
            and ext="?ext" and u="?u" and lay'=LayoutRight
            and args="?kargs" and kw="[(''w'', ?l)]" and args'="?kargs"
            and kw'="[(''w'', ?r)]"]
  have g: "get_types_sig ?ts [(''v'', ''LayoutLeft''), (''w'', ''LayoutLeft'')]
             = get_types_sig ?ts [(''v'', ''LayoutLeft''), (''w'', ''LayoutRight'')]"
    by (rule inst[THEN conjunct1, THEN mp]) simp
  have p: "\<exists>u'. get_annotations ?ext ''parallel_for'' ?h (?args[2 := ?r]) [] = Inr (Some u')
           \<and> inferred_types u' = inferred_types ?u
           \<and> types_signature u' = types_signature ?u
           \<and> map_of (inferred_types ?u) (pname (?ps ! 1)) = None"
    by (rule inst[THEN conjunct2, THEN conjunct2, THEN conjunct1, THEN mp])
       (simp add: policy_params_of_def value_idx_of_def r)
  have q: "\<exists>u'. get_annotations ?ext ''parallel_for'' ?h ?kargs [(''w'', ?r)] = Inr (Some u')
           \<and> inferred_types u' = inferred_types ?u
           \<and> types_signature u' = types_signature ?u
           \<and> map_of (inferred_types ?u) (pname (?ps ! 1)) = None"
    by (rule instk[THEN conjunct2, THEN conjunct2, THEN conjunct2, THEN mp])
       (simp add: policy_params_of_def value_idx_of_def rk)
  have p': "\<exists>u'. get_annotations ?ext ''parallel_for'' ?h (?args[2 := ?r]) [] = Inr (Some u')
           \<and> types_signature u' = Some ''i''"
    using p by auto
  have q': "\<exists>u'. get_annotations ?ext ''parallel_for'' ?h ?kargs [(''w'', ?r)] = Inr (Some u')
           \<and> types_signature u' = Some ''i''"
    using q by auto
  show ?thesis by (intro conjI r r' rk rk' p' q' g)
qed


end
